theory Spec2Isabelle
  imports Complex_Main "HOL-Library.Log_Nat"
begin

section \<open>The rules collaborator (chess.js) as seen by the engine\<close>

text \<open>
  The engine of \<^verbatim>\<open>lib/engine.ts\<close> and its sibling variant (the second engine file of the
  repository, exporting \<^verbatim>\<open>Difficulty\<close>) never look inside a chess position: they ask the
  chess.js object for its legal moves, its board and its side to move, and they apply and
  take back moves. The collaborator is therefore a parameter of the model.
\<close>

datatype color = White | Black

datatype piece_type = Pawn | Knight | Bishop | Rook | Queen | King

record piece =
  ptype :: piece_type
  pcolor :: color

text \<open>
  \<^verbatim>\<open>game.board()\<close> is always an array of 8 rows of 8 squares, each \<^verbatim>\<open>null\<close> or a piece;
  \<open>b i j\<close> is \<^verbatim>\<open>board[i][j]\<close>, read by the engine for \<open>i, j < 8\<close> only.
\<close>

type_synonym board = "nat \<Rightarrow> nat \<Rightarrow> piece option"

record ('p, 'm) rules =
  legalMoves :: "'p \<Rightarrow> 'm list"
  applyMove :: "'p \<Rightarrow> 'm \<Rightarrow> 'p"
  boardOf :: "'p \<Rightarrow> board"
  sideToMove :: "'p \<Rightarrow> color"

text \<open>
  The mutable \<^verbatim>\<open>Chess\<close> object: the position on the board and the stack of positions that
  \<^verbatim>\<open>undo()\<close> pops. \<^verbatim>\<open>game.move(m)\<close> for a legal \<open>m\<close> pushes the position it leaves;
  \<^verbatim>\<open>game.undo()\<close> on an empty history changes nothing.
\<close>

record 'p game =
  current :: 'p
  history :: "'p list"

definition game_moves :: "('p, 'm) rules \<Rightarrow> 'p game \<Rightarrow> 'm list" where
  "game_moves R g = legalMoves R (current g)"

definition game_board :: "('p, 'm) rules \<Rightarrow> 'p game \<Rightarrow> board" where
  "game_board R g = boardOf R (current g)"

definition game_turn :: "('p, 'm) rules \<Rightarrow> 'p game \<Rightarrow> color" where
  "game_turn R g = sideToMove R (current g)"

definition game_move :: "('p, 'm) rules \<Rightarrow> 'p game \<Rightarrow> 'm \<Rightarrow> 'p game" where
  "game_move R g m =
     \<lparr>current = applyMove R (current g) m, history = current g # history g\<rparr>"

definition game_undo :: "'p game \<Rightarrow> 'p game" where
  "game_undo g =
     (case history g of [] \<Rightarrow> g | p # ps \<Rightarrow> \<lparr>current = p, history = ps\<rparr>)"

text \<open>
  JavaScript array indexing: \<^verbatim>\<open>xs[i]\<close> past the end is \<^verbatim>\<open>undefined\<close>, which the callers
  of the engine treat like the empty result (\<^verbatim>\<open>if (aiMove) ...\<close>).
\<close>

definition js_index :: "'a list \<Rightarrow> nat \<Rightarrow> 'a option" where
  "js_index xs i = (if i < length xs then Some (xs ! i) else None)"

section \<open>JavaScript numbers in the Beginner branch\<close>

text \<open>
  \<^verbatim>\<open>Math.random()\<close> is a double \<open>u\<close> with \<open>0 \<le> u < 1\<close>, and \<^verbatim>\<open>Math.random() * moves.length\<close>
  is the IEEE 754 binary64 product: the exact product rounded to the nearest double, a tie
  going to the double with the even significand. For \<open>x > 0\<close>, \<open>binade x\<close> is the exponent
  \<open>e\<close> with \<open>2 powi e \<le> x < 2 powi (e + 1)\<close>, and the doubles around \<open>x\<close> are the multiples
  of \<open>quantum x = 2 powi (e - 52)\<close>, which is never less than \<open>2 powi (- 1074)\<close>, the step of
  the subnormal numbers. \<open>to_double\<close> is this rounding for magnitudes below
  \<open>2 powi 1024\<close>; the products of the engine lie below the length of the move list.
  \<^verbatim>\<open>Math.floor\<close> is exact.
\<close>

definition binade :: "real \<Rightarrow> int" where
  "binade x =
     (if 1 \<le> x then int (floorlog 2 (nat \<lfloor>x\<rfloor>)) - 1
      else - int (floorlog 2 (nat (\<lceil>1 / x\<rceil> - 1))))"

definition round_half_even :: "real \<Rightarrow> int" where
  "round_half_even y =
     (let f = \<lfloor>y\<rfloor>; d = y - of_int f
      in if d < 1 / 2 then f else if 1 / 2 < d then f + 1
         else if even f then f else f + 1)"

definition quantum :: "real \<Rightarrow> real" where
  "quantum x = 2 powi (max (binade x) (- 1022) - 52)"

definition to_double :: "real \<Rightarrow> real" where
  "to_double x =
     (if x = 0 then 0
      else if 0 < x then of_int (round_half_even (x / quantum x)) * quantum x
      else - (of_int (round_half_even (- x / quantum (- x))) * quantum (- x)))"

section \<open>lib/engine.ts\<close>

fun PIECE_VALUES :: "piece_type \<Rightarrow> int" where
  "PIECE_VALUES Pawn = 10"
| "PIECE_VALUES Knight = 30"
| "PIECE_VALUES Bishop = 30"
| "PIECE_VALUES Rook = 50"
| "PIECE_VALUES Queen = 90"
| "PIECE_VALUES King = 900"

fun getPieceValue :: "piece option \<Rightarrow> int" where
  "getPieceValue None = 0"
| "getPieceValue (Some pc) =
     (let val = PIECE_VALUES (ptype pc)
      in if pcolor pc = White then val else - val)"

definition evaluateBoard :: "('p, 'm) rules \<Rightarrow> 'p game \<Rightarrow> int" where
  "evaluateBoard R g =
     (let b = game_board R g
      in fold (\<lambda>i totalEvaluation.
           fold (\<lambda>j totalEvaluation. totalEvaluation + getPieceValue (b i j))
             [0..<8] totalEvaluation)
         [0..<8] 0)"

text \<open>
  The two \<^verbatim>\<open>for (const move of moves)\<close> loops of \<^verbatim>\<open>minimax\<close>; \<open>child\<close> is the recursive
  call \<^verbatim>\<open>minimax(game, depth - 1, alpha, beta, !isMaximizingPlayer)\<close>. Each returns
  \<^verbatim>\<open>bestEval\<close> and the game object as the loop leaves it.
\<close>

fun maximizing_loop ::
  "('p game \<Rightarrow> int \<Rightarrow> int \<Rightarrow> int \<times> 'p game) \<Rightarrow> ('p, 'm) rules \<Rightarrow> 'm list \<Rightarrow>
   'p game \<Rightarrow> int \<Rightarrow> int \<Rightarrow> int \<Rightarrow> int \<times> 'p game" where
  "maximizing_loop child R [] g bestEval alpha beta = (bestEval, g)"
| "maximizing_loop child R (m # ms) g bestEval alpha beta =
     (let g1 = game_move R g m;
          (v, g2) = child g1 alpha beta;
          bestEval' = max bestEval v;
          g3 = game_undo g2;
          alpha' = max alpha bestEval'
      in if beta \<le> alpha' then (bestEval', g3)
         else maximizing_loop child R ms g3 bestEval' alpha' beta)"

fun minimizing_loop ::
  "('p game \<Rightarrow> int \<Rightarrow> int \<Rightarrow> int \<times> 'p game) \<Rightarrow> ('p, 'm) rules \<Rightarrow> 'm list \<Rightarrow>
   'p game \<Rightarrow> int \<Rightarrow> int \<Rightarrow> int \<Rightarrow> int \<times> 'p game" where
  "minimizing_loop child R [] g bestEval alpha beta = (bestEval, g)"
| "minimizing_loop child R (m # ms) g bestEval alpha beta =
     (let g1 = game_move R g m;
          (v, g2) = child g1 alpha beta;
          bestEval' = min bestEval v;
          g3 = game_undo g2;
          beta' = min beta bestEval'
      in if beta' \<le> alpha then (bestEval', g3)
         else minimizing_loop child R ms g3 bestEval' alpha beta')"

fun minimax ::
  "('p, 'm) rules \<Rightarrow> 'p game \<Rightarrow> nat \<Rightarrow> int \<Rightarrow> int \<Rightarrow> bool \<Rightarrow> int \<times> 'p game" where
  "minimax R g 0 alpha beta isMaximizingPlayer = (- evaluateBoard R g, g)"
| "minimax R g (Suc d) alpha beta isMaximizingPlayer =
     (let moves = game_moves R g
      in if isMaximizingPlayer
         then maximizing_loop (\<lambda>g' a b. minimax R g' d a b (\<not> isMaximizingPlayer))
                R moves g (- 9999) alpha beta
         else minimizing_loop (\<lambda>g' a b. minimax R g' d a b (\<not> isMaximizingPlayer))
                R moves g 9999 alpha beta)"

text \<open>
  The root loop of \<^verbatim>\<open>getBestMove\<close>: \<^verbatim>\<open>bestMove\<close> starts as \<^verbatim>\<open>''\<close> (\<open>None\<close>; a move
  of chess.js is never the empty string) and \<^verbatim>\<open>bestValue\<close> as \<open>-9999\<close>.
\<close>

fun root_loop ::
  "('p, 'm) rules \<Rightarrow> nat \<Rightarrow> 'm list \<Rightarrow> 'p game \<Rightarrow> 'm option \<Rightarrow> int \<Rightarrow>
   ('m option \<times> int) \<times> 'p game" where
  "root_loop R depth [] g bestMove bestValue = ((bestMove, bestValue), g)"
| "root_loop R depth (m # ms) g bestMove bestValue =
     (let g1 = game_move R g m;
          (boardValue, g2) = minimax R g1 (depth - 1) (- 10000) 10000 False;
          g3 = game_undo g2
      in if boardValue > bestValue then root_loop R depth ms g3 (Some m) boardValue
         else root_loop R depth ms g3 bestMove bestValue)"

text \<open>
  \<^verbatim>\<open>getBestMove(game, difficulty)\<close>. The difficulty is the string the caller passes
  (TypeScript's union type is erased at run time); \<open>u\<close> is the value of
  \<^verbatim>\<open>Math.random()\<close>, read in the Beginner branch only, where the index is the floor of the
  double product. The result is the move, \<open>None\<close> for
  \<^verbatim>\<open>''\<close>, and the game object as the call leaves it.
\<close>

definition getBestMove ::
  "('p, 'm) rules \<Rightarrow> real \<Rightarrow> 'p game \<Rightarrow> string \<Rightarrow> 'm option \<times> 'p game" where
  "getBestMove R u g difficulty =
     (let moves = game_moves R g
      in if length moves = 0 then (None, g)
         else if difficulty = ''Beginner''
         then (js_index moves (nat \<lfloor>to_double (u * real (length moves))\<rfloor>), g)
         else
           let depth = (if difficulty = ''Easy'' then 1
                        else if difficulty = ''Hard'' then 2 else 3);
               ((bestMove, bestValue), g') = root_loop R depth moves g None (- 9999)
           in ((case bestMove of Some m \<Rightarrow> Some m | None \<Rightarrow> js_index moves 0), g'))"

section \<open>The second engine variant (chess-ai)\<close>

text \<open>
  The variant starts its bounds at \<^verbatim>\<open>-Infinity\<close> and \<^verbatim>\<open>Infinity\<close>, so its scores are the
  integers extended by the two infinities of JavaScript numbers.
\<close>

datatype xint = MInf | Fin int | PInf

instantiation xint :: linorder
begin

fun less_eq_xint :: "xint \<Rightarrow> xint \<Rightarrow> bool" where
  "less_eq_xint MInf y = True"
| "less_eq_xint (Fin a) MInf = False"
| "less_eq_xint (Fin a) (Fin b) = (a \<le> b)"
| "less_eq_xint (Fin a) PInf = True"
| "less_eq_xint PInf PInf = True"
| "less_eq_xint PInf y = False"

definition less_xint :: "xint \<Rightarrow> xint \<Rightarrow> bool" where
  "less_xint x y = (x \<le> y \<and> \<not> y \<le> x)"

instance
proof
  fix x y z :: xint
  show "(x < y) = (x \<le> y \<and> \<not> y \<le> x)" by (simp add: less_xint_def)
  show "x \<le> x" by (cases x) simp_all
  show "x \<le> y \<Longrightarrow> y \<le> z \<Longrightarrow> x \<le> z" by (cases x; cases y; cases z) simp_all
  show "x \<le> y \<Longrightarrow> y \<le> x \<Longrightarrow> x = y" by (cases x; cases y) simp_all
  show "x \<le> y \<or> y \<le> x" by (cases x; cases y) auto
qed

end

text \<open>Unary minus of JavaScript on these values.\<close>

fun xneg :: "xint \<Rightarrow> xint" where
  "xneg MInf = PInf"
| "xneg (Fin a) = Fin (- a)"
| "xneg PInf = MInf"

fun pieceValues :: "piece_type \<Rightarrow> int" where
  "pieceValues Pawn = 10"
| "pieceValues Rook = 50"
| "pieceValues Knight = 30"
| "pieceValues Bishop = 30"
| "pieceValues Queen = 90"
| "pieceValues King = 900"

definition calculatePosition :: "('p, 'm) rules \<Rightarrow> 'p game \<Rightarrow> int" where
  "calculatePosition R g =
     (let b = game_board R g;
          totalValue =
            fold (\<lambda>i totalValue.
              fold (\<lambda>j totalValue.
                (case b i j of
                   None \<Rightarrow> totalValue
                 | Some pc \<Rightarrow>
                     (let val = pieceValues (ptype pc)
                      in totalValue + (if pcolor pc = White then val else - val))))
                [0..<8] totalValue)
              [0..<8] 0
      in if game_turn R g = White then totalValue else - totalValue)"

fun maximizing_loop_ai ::
  "('p game \<Rightarrow> xint \<Rightarrow> xint \<Rightarrow> xint \<times> 'p game) \<Rightarrow> ('p, 'm) rules \<Rightarrow> 'm list \<Rightarrow>
   'p game \<Rightarrow> xint \<Rightarrow> xint \<Rightarrow> xint \<Rightarrow> xint \<times> 'p game" where
  "maximizing_loop_ai child R [] g bestValue alpha beta = (bestValue, g)"
| "maximizing_loop_ai child R (m # ms) g bestValue alpha beta =
     (let g1 = game_move R g m;
          (v, g2) = child g1 alpha beta;
          bestValue' = max bestValue v;
          g3 = game_undo g2;
          alpha' = max alpha bestValue'
      in if beta \<le> alpha' then (bestValue', g3)
         else maximizing_loop_ai child R ms g3 bestValue' alpha' beta)"

fun minimizing_loop_ai ::
  "('p game \<Rightarrow> xint \<Rightarrow> xint \<Rightarrow> xint \<times> 'p game) \<Rightarrow> ('p, 'm) rules \<Rightarrow> 'm list \<Rightarrow>
   'p game \<Rightarrow> xint \<Rightarrow> xint \<Rightarrow> xint \<Rightarrow> xint \<times> 'p game" where
  "minimizing_loop_ai child R [] g bestValue alpha beta = (bestValue, g)"
| "minimizing_loop_ai child R (m # ms) g bestValue alpha beta =
     (let g1 = game_move R g m;
          (v, g2) = child g1 alpha beta;
          bestValue' = min bestValue v;
          g3 = game_undo g2;
          beta' = min beta bestValue'
      in if beta' \<le> alpha then (bestValue', g3)
         else minimizing_loop_ai child R ms g3 bestValue' alpha beta')"

text \<open>The search function of the variant, which the variant itself names \<^verbatim>\<open>evaluateBoard\<close>.\<close>

fun evaluateBoard_ai ::
  "('p, 'm) rules \<Rightarrow> 'p game \<Rightarrow> nat \<Rightarrow> xint \<Rightarrow> xint \<Rightarrow> bool \<Rightarrow> xint \<times> 'p game" where
  "evaluateBoard_ai R g 0 alpha beta isMaximizing = (Fin (calculatePosition R g), g)"
| "evaluateBoard_ai R g (Suc d) alpha beta isMaximizing =
     (let moves = game_moves R g
      in if isMaximizing
         then maximizing_loop_ai (\<lambda>g' a b. evaluateBoard_ai R g' d a b (\<not> isMaximizing))
                R moves g MInf alpha beta
         else minimizing_loop_ai (\<lambda>g' a b. evaluateBoard_ai R g' d a b (\<not> isMaximizing))
                R moves g PInf alpha beta)"

fun root_loop_ai ::
  "('p, 'm) rules \<Rightarrow> nat \<Rightarrow> 'm list \<Rightarrow> 'p game \<Rightarrow> 'm option \<Rightarrow> xint \<Rightarrow>
   ('m option \<times> xint) \<times> 'p game" where
  "root_loop_ai R depth [] g bestMove bestValue = ((bestMove, bestValue), g)"
| "root_loop_ai R depth (m # ms) g bestMove bestValue =
     (let g1 = game_move R g m;
          (v, g2) = evaluateBoard_ai R g1 (depth - 1) MInf PInf False;
          boardValue = xneg v;
          g3 = game_undo g2
      in if boardValue > bestValue then root_loop_ai R depth ms g3 (Some m) boardValue
         else root_loop_ai R depth ms g3 bestMove bestValue)"

text \<open>\<^verbatim>\<open>getBestMove\<close> of the variant; \<open>None\<close> is its \<^verbatim>\<open>null\<close>.\<close>

definition getBestMove_ai ::
  "('p, 'm) rules \<Rightarrow> real \<Rightarrow> 'p game \<Rightarrow> string \<Rightarrow> 'm option \<times> 'p game" where
  "getBestMove_ai R u g difficulty =
     (let moves = game_moves R g
      in if length moves = 0 then (None, g)
         else if difficulty = ''Beginner''
         then (js_index moves (nat \<lfloor>to_double (u * real (length moves))\<rfloor>), g)
         else
           let depth = (if difficulty = ''Easy'' then 1
                        else if difficulty = ''Hard'' then 2 else 3);
               ((bestMove, bestValue), g') = root_loop_ai R depth moves g None MInf
           in ((case bestMove of Some m \<Rightarrow> Some m | None \<Rightarrow> js_index moves 0), g'))"

section \<open>Reference definitions\<close>

text \<open>
  The Evaluator as the specification words it: a fixed value per piece type, counted
  positive for White, negative for Black and zero for an empty square.
\<close>

fun piece_worth :: "piece_type \<Rightarrow> int" where
  "piece_worth Pawn = 10"
| "piece_worth Knight = 30"
| "piece_worth Bishop = 30"
| "piece_worth Rook = 50"
| "piece_worth Queen = 90"
| "piece_worth King = 900"

fun square_score :: "piece option \<Rightarrow> int" where
  "square_score None = 0"
| "square_score (Some pc) =
     (if pcolor pc = White then piece_worth (ptype pc) else - piece_worth (ptype pc))"

definition material :: "board \<Rightarrow> int" where
  "material b = (\<Sum>i<8. \<Sum>j<8. square_score (b i j))"

text \<open>
  The value of a root move at depth 1 for the side to move at the root: the material of
  the position the move leads to, signed for that side.
\<close>

definition easy_value_for_mover :: "('p, 'm) rules \<Rightarrow> 'p \<Rightarrow> 'm \<Rightarrow> int" where
  "easy_value_for_mover R p m =
     (let s = evaluateBoard R \<lparr>current = applyMove R p m, history = []\<rparr>
      in if sideToMove R p = White then s else - s)"

text \<open>
  Plain fixed-depth minimax of \<^verbatim>\<open>lib/engine.ts\<close>: the code of \<^verbatim>\<open>minimax\<close> without the
  window and without the \<^verbatim>\<open>break\<close>, on positions, over the same move order.
\<close>

fun minimax_plain :: "('p, 'm) rules \<Rightarrow> 'p \<Rightarrow> nat \<Rightarrow> bool \<Rightarrow> int" where
  "minimax_plain R p 0 isMax = - evaluateBoard R \<lparr>current = p, history = []\<rparr>"
| "minimax_plain R p (Suc d) isMax =
     (if isMax
      then fold (\<lambda>m best. max best (minimax_plain R (applyMove R p m) d (\<not> isMax)))
             (legalMoves R p) (- 9999)
      else fold (\<lambda>m best. min best (minimax_plain R (applyMove R p m) d (\<not> isMax)))
             (legalMoves R p) 9999)"

text \<open>The same for the variant, whose leaves are \<^verbatim>\<open>calculatePosition\<close>.\<close>

fun search_plain_ai :: "('p, 'm) rules \<Rightarrow> 'p \<Rightarrow> nat \<Rightarrow> bool \<Rightarrow> xint" where
  "search_plain_ai R p 0 isMax = Fin (calculatePosition R \<lparr>current = p, history = []\<rparr>)"
| "search_plain_ai R p (Suc d) isMax =
     (if isMax
      then fold (\<lambda>m best. max best (search_plain_ai R (applyMove R p m) d (\<not> isMax)))
             (legalMoves R p) MInf
      else fold (\<lambda>m best. min best (search_plain_ai R (applyMove R p m) d (\<not> isMax)))
             (legalMoves R p) PInf)"

text \<open>
  The root loop without the game object: \<open>score m\<close> is the value found for root move
  \<open>m\<close>; the running best changes on a strictly greater score only.
\<close>

fun select_best ::
  "('m \<Rightarrow> 'a::linorder) \<Rightarrow> 'm list \<Rightarrow> 'm option \<Rightarrow> 'a \<Rightarrow> 'm option \<times> 'a" where
  "select_best score [] bestMove bestValue = (bestMove, bestValue)"
| "select_best score (m # ms) bestMove bestValue =
     (if score m > bestValue then select_best score ms (Some m) (score m)
      else select_best score ms bestMove bestValue)"

definition search_depth :: "string \<Rightarrow> nat" where
  "search_depth difficulty =
     (if difficulty = ''Easy'' then 1 else if difficulty = ''Hard'' then 2 else 3)"

text \<open>\<^verbatim>\<open>getBestMove\<close> of either file with the plain search in place of the pruned one.\<close>

definition getBestMove_plain ::
  "('p, 'm) rules \<Rightarrow> real \<Rightarrow> 'p \<Rightarrow> string \<Rightarrow> 'm option" where
  "getBestMove_plain R u p difficulty =
     (let moves = legalMoves R p
      in if length moves = 0 then None
         else if difficulty = ''Beginner''
         then js_index moves (nat \<lfloor>to_double (u * real (length moves))\<rfloor>)
         else
           (case fst (select_best
                   (\<lambda>m. minimax_plain R (applyMove R p m) (search_depth difficulty - 1) False)
                   moves None (- 9999)) of
              Some m \<Rightarrow> Some m
            | None \<Rightarrow> js_index moves 0))"

definition getBestMove_ai_plain ::
  "('p, 'm) rules \<Rightarrow> real \<Rightarrow> 'p \<Rightarrow> string \<Rightarrow> 'm option" where
  "getBestMove_ai_plain R u p difficulty =
     (let moves = legalMoves R p
      in if length moves = 0 then None
         else if difficulty = ''Beginner''
         then js_index moves (nat \<lfloor>to_double (u * real (length moves))\<rfloor>)
         else
           (case fst (select_best
                   (\<lambda>m. xneg (search_plain_ai R (applyMove R p m)
                                 (search_depth difficulty - 1) False))
                   moves None MInf) of
              Some m \<Rightarrow> Some m
            | None \<Rightarrow> js_index moves 0))"

text \<open>
  The value of root move \<open>m\<close> under the plain search of \<^verbatim>\<open>lib/engine.ts\<close>: the position
  after \<open>m\<close>, searched for the remaining plies, the minimizing side to move.
\<close>

definition root_value :: "('p, 'm) rules \<Rightarrow> 'p \<Rightarrow> string \<Rightarrow> 'm \<Rightarrow> int" where
  "root_value R p difficulty m =
     minimax_plain R (applyMove R p m) (search_depth difficulty - 1) False"

text \<open>
  The score \<^verbatim>\<open>boardValue\<close> that the root loop of each file computes for root move \<open>m\<close>.
\<close>

definition boardValue :: "('p, 'm) rules \<Rightarrow> 'p game \<Rightarrow> string \<Rightarrow> 'm \<Rightarrow> int" where
  "boardValue R g difficulty m =
     fst (minimax R (game_move R g m) (search_depth difficulty - 1) (- 10000) 10000 False)"

definition boardValue_ai :: "('p, 'm) rules \<Rightarrow> 'p game \<Rightarrow> string \<Rightarrow> 'm \<Rightarrow> xint" where
  "boardValue_ai R g difficulty m =
     xneg (fst (evaluateBoard_ai R (game_move R g m) (search_depth difficulty - 1)
                  MInf PInf False))"

text \<open>
  Every board chess.js can report keeps the material sum inside the window
  \<open>(-10000, 10000)\<close> that \<^verbatim>\<open>getBestMove\<close> of \<^verbatim>\<open>lib/engine.ts\<close> opens: a position has one
  king of each colour, and 62 further men of at most 90 each stay below 9999.
\<close>

definition material_in_window :: "('p, 'm) rules \<Rightarrow> bool" where
  "material_in_window R \<longleftrightarrow> (\<forall>g. \<bar>evaluateBoard R g\<bar> < 10000)"

subsection \<open>The pruned loops without the game object\<close>

definition window_agree :: "'a::linorder \<Rightarrow> 'a \<Rightarrow> 'a \<Rightarrow> 'a \<Rightarrow> bool" where
  "window_agree a b v r \<longleftrightarrow>
     (v \<le> a \<longrightarrow> r \<le> a) \<and> (a < v \<and> v < b \<longrightarrow> r = v) \<and> (b \<le> v \<longrightarrow> b \<le> r)"

fun pruned_max ::
  "('c \<Rightarrow> 'a \<Rightarrow> 'a \<Rightarrow> 'a::linorder) \<Rightarrow> 'c list \<Rightarrow> 'a \<Rightarrow> 'a \<Rightarrow> 'a \<Rightarrow> 'a" where
  "pruned_max f [] best alpha beta = best"
| "pruned_max f (c # cs) best alpha beta =
     (let best' = max best (f c alpha beta); alpha' = max alpha best'
      in if beta \<le> alpha' then best' else pruned_max f cs best' alpha' beta)"

fun pruned_min ::
  "('c \<Rightarrow> 'a \<Rightarrow> 'a \<Rightarrow> 'a::linorder) \<Rightarrow> 'c list \<Rightarrow> 'a \<Rightarrow> 'a \<Rightarrow> 'a \<Rightarrow> 'a" where
  "pruned_min f [] best alpha beta = best"
| "pruned_min f (c # cs) best alpha beta =
     (let best' = min best (f c alpha beta); beta' = min beta best'
      in if beta' \<le> alpha then best' else pruned_min f cs best' alpha beta')"

section \<open>Positions of chess.js for concrete checks\<close>

text \<open>
  Twelve positions, written as the rows of \<^verbatim>\<open>game.board()\<close> from the eighth rank down, with
  the letters of FEN and a dot for an empty square. In every one of them the kings and the
  pawns on the a and b files are locked: White king a1, pawns b2, a7, b6; Black king a8,
  pawns b7, a2, b3.

  \<^item> \<open>Fork_w\<close>, \<^verbatim>\<open>k7/Pp6/1P6/5p1p/5PPP/1p6/pP6/K7 w\<close>: White's only legal moves are those of
    the pawn g4, which chess.js lists as \<^verbatim>\<open>g5\<close>, \<^verbatim>\<open>gxf5\<close>, \<^verbatim>\<open>gxh5\<close>; each of them leaves
    Black without a legal move.
  \<^item> \<open>Fork_b\<close>, \<^verbatim>\<open>k7/Pp6/1P6/5ppp/5P1P/1p6/pP6/K7 b\<close>: Black's only legal moves are those of
    the pawn g5, listed as \<^verbatim>\<open>g4\<close>, \<^verbatim>\<open>gxh4\<close>, \<^verbatim>\<open>gxf4\<close>; each of them leaves White without a
    legal move.
  \<^item> \<open>Locked_w\<close> and \<open>Locked_b\<close>, \<^verbatim>\<open>k7/Pp6/1P6/5p2/5P2/1p3P2/pP6/K7\<close> with White and with
    Black to move: neither side has a legal move.
  \<^item> \<open>Stalemate_h8\<close>, \<^verbatim>\<open>7k/5Q2/6K1/8/8/8/8/8 b\<close>, and \<open>Checkmate_h8\<close>,
    \<^verbatim>\<open>7k/6Q1/6K1/8/8/8/8/8 b\<close>: Black has no legal move.

  So the legal-move lists below are those of chess.js in every position, and a search of
  any depth from any of them stays inside the twelve. The engine applies moves of these
  lists only.
\<close>

datatype sample_position =
  Fork_w | Fork_w_g5 | Fork_w_gxf5 | Fork_w_gxh5
| Fork_b | Fork_b_g4 | Fork_b_gxh4 | Fork_b_gxf4
| Locked_w | Locked_b | Stalemate_h8 | Checkmate_h8

definition piece_of_char :: "char \<Rightarrow> piece option" where
  "piece_of_char c =
     (if c = CHR ''P'' then Some \<lparr>ptype = Pawn, pcolor = White\<rparr>
      else if c = CHR ''N'' then Some \<lparr>ptype = Knight, pcolor = White\<rparr>
      else if c = CHR ''B'' then Some \<lparr>ptype = Bishop, pcolor = White\<rparr>
      else if c = CHR ''R'' then Some \<lparr>ptype = Rook, pcolor = White\<rparr>
      else if c = CHR ''Q'' then Some \<lparr>ptype = Queen, pcolor = White\<rparr>
      else if c = CHR ''K'' then Some \<lparr>ptype = King, pcolor = White\<rparr>
      else if c = CHR ''p'' then Some \<lparr>ptype = Pawn, pcolor = Black\<rparr>
      else if c = CHR ''n'' then Some \<lparr>ptype = Knight, pcolor = Black\<rparr>
      else if c = CHR ''b'' then Some \<lparr>ptype = Bishop, pcolor = Black\<rparr>
      else if c = CHR ''r'' then Some \<lparr>ptype = Rook, pcolor = Black\<rparr>
      else if c = CHR ''q'' then Some \<lparr>ptype = Queen, pcolor = Black\<rparr>
      else if c = CHR ''k'' then Some \<lparr>ptype = King, pcolor = Black\<rparr>
      else None)"

definition board_of_rows :: "string list \<Rightarrow> board" where
  "board_of_rows rows =
     (\<lambda>i j. if i < length rows \<and> j < length (rows ! i) then piece_of_char (rows ! i ! j)
            else None)"

fun sample_rows :: "sample_position \<Rightarrow> string list" where
  "sample_rows Fork_w =
     [''k.......'', ''Pp......'', ''.P......'', ''.....p.p'',
      ''.....PPP'', ''.p......'', ''pP......'', ''K.......'']"
| "sample_rows Fork_w_g5 =
     [''k.......'', ''Pp......'', ''.P......'', ''.....pPp'',
      ''.....P.P'', ''.p......'', ''pP......'', ''K.......'']"
| "sample_rows Fork_w_gxf5 =
     [''k.......'', ''Pp......'', ''.P......'', ''.....P.p'',
      ''.....P.P'', ''.p......'', ''pP......'', ''K.......'']"
| "sample_rows Fork_w_gxh5 =
     [''k.......'', ''Pp......'', ''.P......'', ''.....p.P'',
      ''.....P.P'', ''.p......'', ''pP......'', ''K.......'']"
| "sample_rows Fork_b =
     [''k.......'', ''Pp......'', ''.P......'', ''.....ppp'',
      ''.....P.P'', ''.p......'', ''pP......'', ''K.......'']"
| "sample_rows Fork_b_g4 =
     [''k.......'', ''Pp......'', ''.P......'', ''.....p.p'',
      ''.....PpP'', ''.p......'', ''pP......'', ''K.......'']"
| "sample_rows Fork_b_gxh4 =
     [''k.......'', ''Pp......'', ''.P......'', ''.....p.p'',
      ''.....P.p'', ''.p......'', ''pP......'', ''K.......'']"
| "sample_rows Fork_b_gxf4 =
     [''k.......'', ''Pp......'', ''.P......'', ''.....p.p'',
      ''.....p.P'', ''.p......'', ''pP......'', ''K.......'']"
| "sample_rows Locked_w =
     [''k.......'', ''Pp......'', ''.P......'', ''.....p..'',
      ''.....P..'', ''.p...P..'', ''pP......'', ''K.......'']"
| "sample_rows Locked_b =
     [''k.......'', ''Pp......'', ''.P......'', ''.....p..'',
      ''.....P..'', ''.p...P..'', ''pP......'', ''K.......'']"
| "sample_rows Stalemate_h8 =
     [''.......k'', ''.....Q..'', ''......K.'', ''........'',
      ''........'', ''........'', ''........'', ''........'']"
| "sample_rows Checkmate_h8 =
     [''.......k'', ''......Q.'', ''......K.'', ''........'',
      ''........'', ''........'', ''........'', ''........'']"

definition sample_board :: "sample_position \<Rightarrow> board" where
  "sample_board p = board_of_rows (sample_rows p)"

fun sample_legal :: "sample_position \<Rightarrow> string list" where
  "sample_legal Fork_w = [''g5'', ''gxf5'', ''gxh5'']"
| "sample_legal Fork_b = [''g4'', ''gxh4'', ''gxf4'']"
| "sample_legal p = []"

fun sample_apply :: "sample_position \<Rightarrow> string \<Rightarrow> sample_position" where
  "sample_apply Fork_w m =
     (if m = ''g5'' then Fork_w_g5 else if m = ''gxf5'' then Fork_w_gxf5
      else if m = ''gxh5'' then Fork_w_gxh5 else Fork_w)"
| "sample_apply Fork_b m =
     (if m = ''g4'' then Fork_b_g4 else if m = ''gxh4'' then Fork_b_gxh4
      else if m = ''gxf4'' then Fork_b_gxf4 else Fork_b)"
| "sample_apply p m = p"

fun sample_side :: "sample_position \<Rightarrow> color" where
  "sample_side Fork_w = White"
| "sample_side Fork_b_g4 = White"
| "sample_side Fork_b_gxh4 = White"
| "sample_side Fork_b_gxf4 = White"
| "sample_side Locked_w = White"
| "sample_side p = Black"

definition sample_rules :: "(sample_position, string) rules" where
  "sample_rules =
     \<lparr>legalMoves = sample_legal, applyMove = sample_apply, boardOf = sample_board,
      sideToMove = sample_side\<rparr>"

definition fork_w_game :: "sample_position game" where
  "fork_w_game = \<lparr>current = Fork_w, history = []\<rparr>"

definition fork_b_game :: "sample_position game" where
  "fork_b_game = \<lparr>current = Fork_b, history = []\<rparr>"

text \<open>The double nearest to one third, \<^verbatim>\<open>1 / 3\<close> in JavaScript.\<close>

definition one_third :: real where
  "one_third = 6004799503160661 / 2 ^ 54"

section \<open>Auxiliary facts\<close>

lemma game_undo_move: "game_undo (game_move R g m) = g"
  by (simp add: game_undo_def game_move_def)

lemma current_game_move: "current (game_move R g m) = applyMove R (current g) m"
  by (simp add: game_move_def)

lemma evaluateBoard_current:
  "evaluateBoard R g = evaluateBoard R \<lparr>current = current g, history = []\<rparr>"
  by (simp add: evaluateBoard_def game_board_def)

lemma calculatePosition_current:
  "calculatePosition R g = calculatePosition R \<lparr>current = current g, history = []\<rparr>"
  by (simp add: calculatePosition_def game_board_def game_turn_def)

lemma maximizing_loop_pure:
  assumes "\<And>g a b. snd (child g a b) = g"
  shows "maximizing_loop child R ms g best alpha beta =
         (pruned_max (\<lambda>m a b. fst (child (game_move R g m) a b)) ms best alpha beta, g)"
proof (induction ms arbitrary: best alpha)
  case Nil
  show ?case by simp
next
  case (Cons m ms)
  show ?case
    using assms by (simp add: Let_def case_prod_beta game_undo_move Cons.IH)
qed

lemma minimizing_loop_pure:
  assumes "\<And>g a b. snd (child g a b) = g"
  shows "minimizing_loop child R ms g best alpha beta =
         (pruned_min (\<lambda>m a b. fst (child (game_move R g m) a b)) ms best alpha beta, g)"
proof (induction ms arbitrary: best beta)
  case Nil
  show ?case by simp
next
  case (Cons m ms)
  show ?case
    using assms by (simp add: Let_def case_prod_beta game_undo_move Cons.IH)
qed

lemma pruned_max_ge: "best \<le> pruned_max f cs best alpha beta"
proof (induction cs arbitrary: best alpha)
  case Nil
  show ?case by simp
next
  case (Cons c cs)
  have "max best (f c alpha beta) \<le>
        pruned_max f cs (max best (f c alpha beta)) (max alpha (max best (f c alpha beta))) beta"
    by (rule Cons.IH)
  then show ?case by (simp add: Let_def)
qed

lemma pruned_min_le: "pruned_min f cs best alpha beta \<le> best"
proof (induction cs arbitrary: best beta)
  case Nil
  show ?case by simp
next
  case (Cons c cs)
  have "pruned_min f cs (min best (f c alpha beta)) alpha (min beta (min best (f c alpha beta)))
         \<le> min best (f c alpha beta)"
    by (rule Cons.IH)
  then show ?case by (simp add: Let_def)
qed

lemma fold_max_out:
  "fold (\<lambda>c x. max x (v c)) cs (max a b) = max a (fold (\<lambda>c x. max x (v c)) cs (b::'a::linorder))"
  by (induction cs arbitrary: b) (simp_all add: max.assoc)

lemma fold_min_out:
  "fold (\<lambda>c x. min x (v c)) cs (min a b) = min a (fold (\<lambda>c x. min x (v c)) cs (b::'a::linorder))"
  by (induction cs arbitrary: b) (simp_all add: min.assoc)

lemma fold_max_ge: "(b::'a::linorder) \<le> fold (\<lambda>c x. max x (v c)) cs b"
proof (induction cs arbitrary: b)
  case Nil
  show ?case by simp
next
  case (Cons c cs)
  have "max b (v c) \<le> fold (\<lambda>c x. max x (v c)) cs (max b (v c))" by (rule Cons.IH)
  then show ?case by simp
qed

lemma fold_min_le: "fold (\<lambda>c x. min x (v c)) cs b \<le> (b::'a::linorder)"
proof (induction cs arbitrary: b)
  case Nil
  show ?case by simp
next
  case (Cons c cs)
  have "fold (\<lambda>c x. min x (v c)) cs (min b (v c)) \<le> min b (v c)" by (rule Cons.IH)
  then show ?case by simp
qed

lemma pruned_max_agree:
  assumes "alpha < beta"
    and "\<And>c a b. c \<in> set cs \<Longrightarrow> a < b \<Longrightarrow> window_agree a b (v c) (f c a b)"
  shows "window_agree alpha beta (fold (\<lambda>c x. max x (v c)) cs best)
           (pruned_max f cs best alpha beta)"
  using assms
proof (induction cs arbitrary: best alpha)
  case Nil
  show ?case by (simp add: window_agree_def)
next
  case (Cons c cs)
  define r1 where "r1 = f c alpha beta"
  define b' where "b' = max best r1"
  define a' where "a' = max alpha b'"
  define W where "W = fold (\<lambda>c x. max x (v c)) cs best"
  define r where "r = pruned_max f cs b' a' beta"
  have ch: "window_agree alpha beta (v c) r1"
    using Cons.prems by (simp add: r1_def)
  have V: "fold (\<lambda>c x. max x (v c)) (c # cs) best = max (v c) W"
    unfolding W_def fold_max_out [symmetric] by (simp add: max.commute)
  have V': "fold (\<lambda>c x. max x (v c)) cs b' = max r1 W"
    unfolding W_def b'_def fold_max_out [symmetric] by (simp add: max.commute)
  have W: "best \<le> W" by (simp add: W_def fold_max_ge)
  have rge: "b' \<le> r" by (simp add: r_def pruned_max_ge)
  show ?case
  proof (cases "beta \<le> a'")
    case True
    then have res: "pruned_max f (c # cs) best alpha beta = b'"
      by (simp add: Let_def r1_def b'_def a'_def)
    show ?thesis
      unfolding res V using True ch W \<open>alpha < beta\<close>
      by (auto simp: window_agree_def a'_def b'_def max_def split: if_splits)
  next
    case False
    then have res: "pruned_max f (c # cs) best alpha beta = r"
      by (simp add: Let_def r1_def b'_def a'_def r_def)
    have "window_agree a' beta (fold (\<lambda>c x. max x (v c)) cs b') r"
      unfolding r_def using False Cons.prems(2) by (intro Cons.IH) auto
    then have ih: "window_agree a' beta (max r1 W) r" by (simp add: V')
    show ?thesis
      unfolding res V using False ch W rge ih \<open>alpha < beta\<close>
      by (auto simp: window_agree_def a'_def b'_def max_def split: if_splits)
  qed
qed

lemma pruned_min_agree:
  assumes "alpha < beta"
    and "\<And>c a b. c \<in> set cs \<Longrightarrow> a < b \<Longrightarrow> window_agree a b (v c) (f c a b)"
  shows "window_agree alpha beta (fold (\<lambda>c x. min x (v c)) cs best)
           (pruned_min f cs best alpha beta)"
  using assms
proof (induction cs arbitrary: best beta)
  case Nil
  show ?case by (simp add: window_agree_def)
next
  case (Cons c cs)
  define r1 where "r1 = f c alpha beta"
  define b' where "b' = min best r1"
  define be' where "be' = min beta b'"
  define W where "W = fold (\<lambda>c x. min x (v c)) cs best"
  define r where "r = pruned_min f cs b' alpha be'"
  have ch: "window_agree alpha beta (v c) r1"
    using Cons.prems by (simp add: r1_def)
  have V: "fold (\<lambda>c x. min x (v c)) (c # cs) best = min (v c) W"
    unfolding W_def fold_min_out [symmetric] by (simp add: min.commute)
  have V': "fold (\<lambda>c x. min x (v c)) cs b' = min r1 W"
    unfolding W_def b'_def fold_min_out [symmetric] by (simp add: min.commute)
  have W: "W \<le> best" by (simp add: W_def fold_min_le)
  have rle: "r \<le> b'" by (simp add: r_def pruned_min_le)
  show ?case
  proof (cases "be' \<le> alpha")
    case True
    then have res: "pruned_min f (c # cs) best alpha beta = b'"
      by (simp add: Let_def r1_def b'_def be'_def)
    show ?thesis
      unfolding res V using True ch W \<open>alpha < beta\<close>
      by (auto simp: window_agree_def be'_def b'_def min_def split: if_splits)
  next
    case False
    then have res: "pruned_min f (c # cs) best alpha beta = r"
      by (simp add: Let_def r1_def b'_def be'_def r_def)
    have "window_agree alpha be' (fold (\<lambda>c x. min x (v c)) cs b') r"
      unfolding r_def using False Cons.prems(2) by (intro Cons.IH) auto
    then have ih: "window_agree alpha be' (min r1 W) r" by (simp add: V')
    show ?thesis
      unfolding res V using False ch W rle ih \<open>alpha < beta\<close>
      by (auto simp: window_agree_def be'_def b'_def min_def split: if_splits)
  qed
qed

lemma minimax_game: "snd (minimax R g d alpha beta mx) = g"
proof (induction d arbitrary: g alpha beta mx)
  case 0
  show ?case by simp
next
  case (Suc d)
  show ?case
    by (simp add: Let_def maximizing_loop_pure minimizing_loop_pure Suc.IH)
qed

lemma minimax_Suc:
  "minimax R g (Suc d) alpha beta mx =
     (if mx
      then pruned_max (\<lambda>m a b. fst (minimax R (game_move R g m) d a b False))
             (game_moves R g) (- 9999) alpha beta
      else pruned_min (\<lambda>m a b. fst (minimax R (game_move R g m) d a b True))
             (game_moves R g) 9999 alpha beta, g)"
  by (simp add: Let_def maximizing_loop_pure minimizing_loop_pure minimax_game)

lemma minimax_agree:
  "alpha < beta \<Longrightarrow>
   window_agree alpha beta (minimax_plain R (current g) d mx)
     (fst (minimax R g d alpha beta mx))"
proof (induction d arbitrary: g alpha beta mx)
  case 0
  show ?case
    using evaluateBoard_current [of R g] by (simp add: window_agree_def)
next
  case (Suc d)
  show ?case
  proof (cases mx)
    case True
    have "window_agree alpha beta
            (fold (\<lambda>m x. max x (minimax_plain R (applyMove R (current g) m) d False))
               (game_moves R g) (- 9999))
            (pruned_max (\<lambda>m a b. fst (minimax R (game_move R g m) d a b False))
               (game_moves R g) (- 9999) alpha beta)"
      using Suc.prems Suc.IH [of _ _ "game_move R g _" False]
      by (intro pruned_max_agree) (simp_all add: current_game_move)
    then show ?thesis using True by (simp add: minimax_Suc game_moves_def del: minimax.simps)
  next
    case False
    have "window_agree alpha beta
            (fold (\<lambda>m x. min x (minimax_plain R (applyMove R (current g) m) d True))
               (game_moves R g) 9999)
            (pruned_min (\<lambda>m a b. fst (minimax R (game_move R g m) d a b True))
               (game_moves R g) 9999 alpha beta)"
      using Suc.prems Suc.IH [of _ _ "game_move R g _" True]
      by (intro pruned_min_agree) (simp_all add: current_game_move)
    then show ?thesis using False by (simp add: minimax_Suc game_moves_def del: minimax.simps)
  qed
qed

lemma fold_max_le:
  "(b::'a::linorder) \<le> hi \<Longrightarrow> (\<And>c. c \<in> set cs \<Longrightarrow> v c \<le> hi) \<Longrightarrow>
   fold (\<lambda>c x. max x (v c)) cs b \<le> hi"
  by (induction cs arbitrary: b) simp_all

lemma fold_min_ge:
  "lo \<le> (b::'a::linorder) \<Longrightarrow> (\<And>c. c \<in> set cs \<Longrightarrow> lo \<le> v c) \<Longrightarrow>
   lo \<le> fold (\<lambda>c x. min x (v c)) cs b"
  by (induction cs arbitrary: b) simp_all

lemma minimax_plain_bounds:
  assumes "material_in_window R"
  shows "- 9999 \<le> minimax_plain R p d mx \<and> minimax_plain R p d mx \<le> 9999"
proof (induction d arbitrary: p mx)
  case 0
  have "\<bar>evaluateBoard R \<lparr>current = p, history = []\<rparr>\<bar> < 10000"
    using assms unfolding material_in_window_def by blast
  then show ?case by (simp add: abs_less_iff)
next
  case (Suc d)
  show ?case
  proof (cases mx)
    case True
    have "fold (\<lambda>m x. max x (minimax_plain R (applyMove R p m) d False)) (legalMoves R p) (- 9999)
            \<le> 9999"
      using Suc.IH by (intro fold_max_le) simp_all
    moreover have "- 9999 \<le>
        fold (\<lambda>m x. max x (minimax_plain R (applyMove R p m) d False)) (legalMoves R p) (- 9999)"
      by (rule fold_max_ge)
    ultimately show ?thesis using True by simp
  next
    case False
    have "- 9999 \<le>
        fold (\<lambda>m x. min x (minimax_plain R (applyMove R p m) d True)) (legalMoves R p) 9999"
      using Suc.IH by (intro fold_min_ge) simp_all
    moreover have
      "fold (\<lambda>m x. min x (minimax_plain R (applyMove R p m) d True)) (legalMoves R p) 9999
         \<le> 9999"
      by (rule fold_min_le)
    ultimately show ?thesis using False by simp
  qed
qed

lemma minimax_full_window:
  assumes "material_in_window R"
  shows "fst (minimax R g d (- 10000) 10000 mx) = minimax_plain R (current g) d mx"
proof -
  have "window_agree (- 10000) 10000 (minimax_plain R (current g) d mx)
          (fst (minimax R g d (- 10000) 10000 mx))"
    by (rule minimax_agree) simp
  then show ?thesis
    using minimax_plain_bounds [OF assms, of "current g" d mx]
    by (simp add: window_agree_def)
qed

lemma maximizing_loop_ai_pure:
  assumes "\<And>g a b. snd (child g a b) = g"
  shows "maximizing_loop_ai child R ms g best alpha beta =
         (pruned_max (\<lambda>m a b. fst (child (game_move R g m) a b)) ms best alpha beta, g)"
proof (induction ms arbitrary: best alpha)
  case Nil
  show ?case by simp
next
  case (Cons m ms)
  show ?case
    using assms by (simp add: Let_def case_prod_beta game_undo_move Cons.IH)
qed

lemma minimizing_loop_ai_pure:
  assumes "\<And>g a b. snd (child g a b) = g"
  shows "minimizing_loop_ai child R ms g best alpha beta =
         (pruned_min (\<lambda>m a b. fst (child (game_move R g m) a b)) ms best alpha beta, g)"
proof (induction ms arbitrary: best beta)
  case Nil
  show ?case by simp
next
  case (Cons m ms)
  show ?case
    using assms by (simp add: Let_def case_prod_beta game_undo_move Cons.IH)
qed

lemma xint_le_MInf: "x \<le> MInf \<longleftrightarrow> x = MInf"
  by (cases x) simp_all

lemma xint_PInf_le: "PInf \<le> x \<longleftrightarrow> x = PInf"
  by (cases x) simp_all

lemma xint_MInf_less_PInf: "MInf < PInf"
  by (simp add: less_xint_def)

lemma xint_le_PInf: "x \<le> PInf"
  by (cases x) simp_all

lemma window_agree_full: "window_agree MInf PInf v r \<Longrightarrow> r = v"
  unfolding window_agree_def
  by (cases v) (auto simp: less_xint_def xint_le_MInf xint_PInf_le)

lemma evaluateBoard_ai_game: "snd (evaluateBoard_ai R g d alpha beta mx) = g"
proof (induction d arbitrary: g alpha beta mx)
  case 0
  show ?case by simp
next
  case (Suc d)
  show ?case
    by (simp add: Let_def maximizing_loop_ai_pure minimizing_loop_ai_pure Suc.IH)
qed

lemma evaluateBoard_ai_Suc:
  "evaluateBoard_ai R g (Suc d) alpha beta mx =
     (if mx
      then pruned_max (\<lambda>m a b. fst (evaluateBoard_ai R (game_move R g m) d a b False))
             (game_moves R g) MInf alpha beta
      else pruned_min (\<lambda>m a b. fst (evaluateBoard_ai R (game_move R g m) d a b True))
             (game_moves R g) PInf alpha beta, g)"
  by (simp add: Let_def maximizing_loop_ai_pure minimizing_loop_ai_pure evaluateBoard_ai_game)

lemma evaluateBoard_ai_agree:
  "alpha < beta \<Longrightarrow>
   window_agree alpha beta (search_plain_ai R (current g) d mx)
     (fst (evaluateBoard_ai R g d alpha beta mx))"
proof (induction d arbitrary: g alpha beta mx)
  case 0
  show ?case
    using calculatePosition_current [of R g] by (simp add: window_agree_def)
next
  case (Suc d)
  show ?case
  proof (cases mx)
    case True
    have "window_agree alpha beta
            (fold (\<lambda>m x. max x (search_plain_ai R (applyMove R (current g) m) d False))
               (game_moves R g) MInf)
            (pruned_max (\<lambda>m a b. fst (evaluateBoard_ai R (game_move R g m) d a b False))
               (game_moves R g) MInf alpha beta)"
      using Suc.prems Suc.IH [of _ _ "game_move R g _" False]
      by (intro pruned_max_agree) (simp_all add: current_game_move)
    then show ?thesis
      using True by (simp add: evaluateBoard_ai_Suc game_moves_def del: evaluateBoard_ai.simps)
  next
    case False
    have "window_agree alpha beta
            (fold (\<lambda>m x. min x (search_plain_ai R (applyMove R (current g) m) d True))
               (game_moves R g) PInf)
            (pruned_min (\<lambda>m a b. fst (evaluateBoard_ai R (game_move R g m) d a b True))
               (game_moves R g) PInf alpha beta)"
      using Suc.prems Suc.IH [of _ _ "game_move R g _" True]
      by (intro pruned_min_agree) (simp_all add: current_game_move)
    then show ?thesis
      using False by (simp add: evaluateBoard_ai_Suc game_moves_def del: evaluateBoard_ai.simps)
  qed
qed

lemma evaluateBoard_ai_full_window:
  "fst (evaluateBoard_ai R g d MInf PInf mx) = search_plain_ai R (current g) d mx"
  by (rule window_agree_full) (simp add: evaluateBoard_ai_agree xint_MInf_less_PInf)

lemma select_best_cases:
  "select_best score ms bm bv = (bm', bv') \<Longrightarrow>
   (bm' = bm \<and> bv' = bv \<and> (\<forall>m \<in> set ms. score m \<le> bv)) \<or>
   (\<exists>i < length ms. bm' = Some (ms ! i) \<and> bv' = score (ms ! i) \<and> bv < score (ms ! i) \<and>
      (\<forall>j < i. score (ms ! j) < score (ms ! i)) \<and>
      (\<forall>j < length ms. score (ms ! j) \<le> score (ms ! i)))"
proof (induction ms arbitrary: bm bv)
  case Nil
  then show ?case by simp
next
  case (Cons m ms)
  show ?case
  proof (cases "score m > bv")
    case True
    with Cons.prems have rec: "select_best score ms (Some m) (score m) = (bm', bv')" by simp
    from Cons.IH [OF rec] show ?thesis
    proof
      assume h: "bm' = Some m \<and> bv' = score m \<and> (\<forall>x \<in> set ms. score x \<le> score m)"
      have "\<forall>j < length (m # ms). score ((m # ms) ! j) \<le> score m"
        using h by (auto simp: nth_Cons' )
      then have "0 < length (m # ms) \<and> bm' = Some ((m # ms) ! 0) \<and> bv' = score ((m # ms) ! 0) \<and>
            bv < score ((m # ms) ! 0) \<and>
            (\<forall>j < 0. score ((m # ms) ! j) < score ((m # ms) ! 0)) \<and>
            (\<forall>j < length (m # ms). score ((m # ms) ! j) \<le> score ((m # ms) ! 0))"
        using h True by simp
      then show ?thesis by blast
    next
      assume "\<exists>i < length ms. bm' = Some (ms ! i) \<and> bv' = score (ms ! i) \<and>
          score m < score (ms ! i) \<and> (\<forall>j < i. score (ms ! j) < score (ms ! i)) \<and>
          (\<forall>j < length ms. score (ms ! j) \<le> score (ms ! i))"
      then obtain i where i: "i < length ms" "bm' = Some (ms ! i)" "bv' = score (ms ! i)"
          "score m < score (ms ! i)" "\<forall>j < i. score (ms ! j) < score (ms ! i)"
          "\<forall>j < length ms. score (ms ! j) \<le> score (ms ! i)" by blast
      have a: "\<forall>j < Suc i. score ((m # ms) ! j) < score (ms ! i)"
        using i(4,5) by (auto simp: nth_Cons')
      have b: "\<forall>j < length (m # ms). score ((m # ms) ! j) \<le> score (ms ! i)"
        using i(4,6) by (auto simp: nth_Cons')
      have "Suc i < length (m # ms) \<and> bm' = Some ((m # ms) ! Suc i) \<and>
            bv' = score ((m # ms) ! Suc i) \<and> bv < score ((m # ms) ! Suc i) \<and>
            (\<forall>j < Suc i. score ((m # ms) ! j) < score ((m # ms) ! Suc i)) \<and>
            (\<forall>j < length (m # ms). score ((m # ms) ! j) \<le> score ((m # ms) ! Suc i))"
        using i(1-4) a b True by auto
      then show ?thesis by blast
    qed
  next
    case False
    with Cons.prems have rec: "select_best score ms bm bv = (bm', bv')" by simp
    from Cons.IH [OF rec] show ?thesis
    proof
      assume "bm' = bm \<and> bv' = bv \<and> (\<forall>x \<in> set ms. score x \<le> bv)"
      then show ?thesis using False by auto
    next
      assume "\<exists>i < length ms. bm' = Some (ms ! i) \<and> bv' = score (ms ! i) \<and>
          bv < score (ms ! i) \<and> (\<forall>j < i. score (ms ! j) < score (ms ! i)) \<and>
          (\<forall>j < length ms. score (ms ! j) \<le> score (ms ! i))"
      then obtain i where i: "i < length ms" "bm' = Some (ms ! i)" "bv' = score (ms ! i)"
          "bv < score (ms ! i)" "\<forall>j < i. score (ms ! j) < score (ms ! i)"
          "\<forall>j < length ms. score (ms ! j) \<le> score (ms ! i)" by blast
      have m: "score m < score (ms ! i)" using False i(4) by auto
      have a: "\<forall>j < Suc i. score ((m # ms) ! j) < score (ms ! i)"
        using m i(5) by (auto simp: nth_Cons')
      have b: "\<forall>j < length (m # ms). score ((m # ms) ! j) \<le> score (ms ! i)"
        using m i(6) by (auto simp: nth_Cons')
      have "Suc i < length (m # ms) \<and> bm' = Some ((m # ms) ! Suc i) \<and>
            bv' = score ((m # ms) ! Suc i) \<and> bv < score ((m # ms) ! Suc i) \<and>
            (\<forall>j < Suc i. score ((m # ms) ! j) < score ((m # ms) ! Suc i)) \<and>
            (\<forall>j < length (m # ms). score ((m # ms) ! j) \<le> score ((m # ms) ! Suc i))"
        using i(1-4) a b by auto
      then show ?thesis by blast
    qed
  qed
qed

lemma fold_add_upt: "fold (\<lambda>j t. t + f j) [0..<n] (t::int) = t + (\<Sum>j<n. f j)"
  by (induction n) simp_all

lemma getPieceValue_square_score: "getPieceValue sq = square_score sq"
proof (cases sq)
  case None
  then show ?thesis by simp
next
  case (Some pc)
  then show ?thesis by (cases "ptype pc") (simp_all add: Let_def)
qed

lemma evaluateBoard_material: "evaluateBoard R g = material (game_board R g)"
  by (simp add: evaluateBoard_def material_def Let_def fold_add_upt getPieceValue_square_score)

lemma variant_square:
  "(case sq of None \<Rightarrow> t
    | Some pc \<Rightarrow> (let val = pieceValues (ptype pc)
                  in t + (if pcolor pc = White then val else - val))) = t + square_score sq"
proof (cases sq)
  case None
  then show ?thesis by simp
next
  case (Some pc)
  then show ?thesis by (cases "ptype pc") (simp_all add: Let_def)
qed

lemma calculatePosition_material:
  "calculatePosition R g =
     (if game_turn R g = White then material (game_board R g) else - material (game_board R g))"
  by (simp add: calculatePosition_def material_def Let_def variant_square fold_add_upt)

lemma root_loop_pure:
  "root_loop R depth ms g bm bv =
     (select_best (\<lambda>m. fst (minimax R (game_move R g m) (depth - 1) (- 10000) 10000 False))
        ms bm bv, g)"
proof (induction ms arbitrary: bm bv)
  case Nil
  show ?case by simp
next
  case (Cons m ms)
  show ?case
    by (simp add: Let_def case_prod_beta minimax_game game_undo_move Cons.IH)
qed

lemma root_loop_ai_pure:
  "root_loop_ai R depth ms g bm bv =
     (select_best
        (\<lambda>m. xneg (fst (evaluateBoard_ai R (game_move R g m) (depth - 1) MInf PInf False)))
        ms bm bv, g)"
proof (induction ms arbitrary: bm bv)
  case Nil
  show ?case by simp
next
  case (Cons m ms)
  show ?case
    by (simp add: Let_def case_prod_beta evaluateBoard_ai_game game_undo_move Cons.IH)
qed

lemma getBestMove_search:
  assumes "game_moves R g \<noteq> []" "difficulty \<noteq> ''Beginner''"
  shows "getBestMove R u g difficulty =
     ((case fst (select_best (boardValue R g difficulty) (game_moves R g) None (- 9999)) of
         Some m \<Rightarrow> Some m | None \<Rightarrow> js_index (game_moves R g) 0), g)"
proof -
  have d: "(if difficulty = ''Easy'' then 1 else if difficulty = ''Hard'' then 2 else 3)
             = search_depth difficulty"
    by (simp add: search_depth_def)
  have b: "(\<lambda>m. fst (minimax R (game_move R g m) (search_depth difficulty - 1)
                        (- 10000) 10000 False)) = boardValue R g difficulty"
    by (rule ext) (simp add: boardValue_def)
  show ?thesis
    using assms unfolding getBestMove_def Let_def d root_loop_pure b
    by (simp add: case_prod_beta)
qed

lemma getBestMove_ai_search:
  assumes "game_moves R g \<noteq> []" "difficulty \<noteq> ''Beginner''"
  shows "getBestMove_ai R u g difficulty =
     ((case fst (select_best (boardValue_ai R g difficulty) (game_moves R g) None MInf) of
         Some m \<Rightarrow> Some m | None \<Rightarrow> js_index (game_moves R g) 0), g)"
proof -
  have d: "(if difficulty = ''Easy'' then 1 else if difficulty = ''Hard'' then 2 else 3)
             = search_depth difficulty"
    by (simp add: search_depth_def)
  have b: "(\<lambda>m. xneg (fst (evaluateBoard_ai R (game_move R g m) (search_depth difficulty - 1)
                        MInf PInf False))) = boardValue_ai R g difficulty"
    by (rule ext) (simp add: boardValue_ai_def)
  show ?thesis
    using assms unfolding getBestMove_ai_def Let_def d root_loop_ai_pure b
    by (simp add: case_prod_beta)
qed

lemma chosen_move:
  assumes "ms \<noteq> []"
  shows "\<exists>i < length ms.
     (case fst (select_best score ms None bv) of Some m \<Rightarrow> Some m | None \<Rightarrow> js_index ms 0)
        = Some (ms ! i) \<and>
     (\<forall>j < i. score (ms ! j) < score (ms ! i)) \<and>
     ((\<forall>m \<in> set ms. bv \<le> score m) \<longrightarrow> (\<forall>j < length ms. score (ms ! j) \<le> score (ms ! i))) \<and>
     ((\<forall>m \<in> set ms. score m \<le> bv) \<longrightarrow> i = 0)"
proof -
  obtain bm' bv' where sb: "select_best score ms None bv = (bm', bv')"
    by (cases "select_best score ms None bv")
  from select_best_cases [OF sb] show ?thesis
  proof
    assume h: "bm' = None \<and> bv' = bv \<and> (\<forall>m \<in> set ms. score m \<le> bv)"
    have "(\<forall>m \<in> set ms. bv \<le> score m) \<longrightarrow> (\<forall>j < length ms. score (ms ! j) \<le> score (ms ! 0))"
      using h assms by (metis length_greater_0_conv nth_mem order_trans)
    then have "0 < length ms \<and>
        (case fst (select_best score ms None bv) of Some m \<Rightarrow> Some m | None \<Rightarrow> js_index ms 0)
          = Some (ms ! 0) \<and>
        (\<forall>j < 0. score (ms ! j) < score (ms ! 0)) \<and>
        ((\<forall>m \<in> set ms. bv \<le> score m) \<longrightarrow> (\<forall>j < length ms. score (ms ! j) \<le> score (ms ! 0))) \<and>
        ((\<forall>m \<in> set ms. score m \<le> bv) \<longrightarrow> (0::nat) = 0)"
      using h assms sb by (simp add: js_index_def)
    then show ?thesis by blast
  next
    assume "\<exists>i < length ms. bm' = Some (ms ! i) \<and> bv' = score (ms ! i) \<and> bv < score (ms ! i) \<and>
      (\<forall>j < i. score (ms ! j) < score (ms ! i)) \<and>
      (\<forall>j < length ms. score (ms ! j) \<le> score (ms ! i))"
    then obtain i where i: "i < length ms" "bm' = Some (ms ! i)" "bv < score (ms ! i)"
      "\<forall>j < i. score (ms ! j) < score (ms ! i)"
      "\<forall>j < length ms. score (ms ! j) \<le> score (ms ! i)" by blast
    have "\<not> (\<forall>m \<in> set ms. score m \<le> bv)"
      using i(1,3) by (meson leD nth_mem)
    then have n: "(\<forall>m \<in> set ms. score m \<le> bv) \<longrightarrow> i = 0" by blast
    have "i < length ms \<and>
        (case fst (select_best score ms None bv) of Some m \<Rightarrow> Some m | None \<Rightarrow> js_index ms 0)
          = Some (ms ! i) \<and>
        (\<forall>j < i. score (ms ! j) < score (ms ! i)) \<and>
        ((\<forall>m \<in> set ms. bv \<le> score m) \<longrightarrow> (\<forall>j < length ms. score (ms ! j) \<le> score (ms ! i))) \<and>
        ((\<forall>m \<in> set ms. score m \<le> bv) \<longrightarrow> i = 0)"
      using i(1,2,4,5) n sb by simp
    then show ?thesis by blast
  qed
qed

lemma chosen_move_or_first:
  assumes "ms \<noteq> []"
  shows "\<exists>i < length ms.
     (case fst (select_best score ms None bv) of Some m \<Rightarrow> Some m | None \<Rightarrow> js_index ms 0)
        = Some (ms ! i) \<and> (i = 0 \<or> bv < score (ms ! i))"
proof -
  obtain bm' bv' where sb: "select_best score ms None bv = (bm', bv')"
    by (cases "select_best score ms None bv")
  from select_best_cases [OF sb] show ?thesis
  proof
    assume "bm' = None \<and> bv' = bv \<and> (\<forall>m \<in> set ms. score m \<le> bv)"
    then have "0 < length ms \<and>
        (case fst (select_best score ms None bv) of Some m \<Rightarrow> Some m | None \<Rightarrow> js_index ms 0)
          = Some (ms ! 0) \<and> ((0::nat) = 0 \<or> bv < score (ms ! 0))"
      using assms sb by (simp add: js_index_def)
    then show ?thesis by blast
  next
    assume "\<exists>i < length ms. bm' = Some (ms ! i) \<and> bv' = score (ms ! i) \<and> bv < score (ms ! i) \<and>
      (\<forall>j < i. score (ms ! j) < score (ms ! i)) \<and>
      (\<forall>j < length ms. score (ms ! j) \<le> score (ms ! i))"
    then obtain i where i: "i < length ms" "bm' = Some (ms ! i)" "bv < score (ms ! i)" by blast
    then have "i < length ms \<and>
        (case fst (select_best score ms None bv) of Some m \<Rightarrow> Some m | None \<Rightarrow> js_index ms 0)
          = Some (ms ! i) \<and> (i = 0 \<or> bv < score (ms ! i))"
      using sb by simp
    then show ?thesis by blast
  qed
qed

lemma root_loop_keeps_best:
  "boardValue R g difficulty m \<le> bestValue \<Longrightarrow>
   root_loop R (search_depth difficulty) (m # ms) g bestMove bestValue =
   root_loop R (search_depth difficulty) ms g bestMove bestValue"
  by (simp add: root_loop_pure boardValue_def)

lemma root_loop_ai_keeps_best:
  "boardValue_ai R g difficulty m \<le> bestValue \<Longrightarrow>
   root_loop_ai R (search_depth difficulty) (m # ms) g bestMove bestValue =
   root_loop_ai R (search_depth difficulty) ms g bestMove bestValue"
  by (auto simp: root_loop_ai_pure boardValue_ai_def)

lemma boardValue_plain:
  assumes "material_in_window R"
  shows "boardValue R g difficulty =
     (\<lambda>m. minimax_plain R (applyMove R (current g) m) (search_depth difficulty - 1) False)"
  by (rule ext) (simp add: boardValue_def minimax_full_window [OF assms] current_game_move)

lemma boardValue_ai_plain:
  "boardValue_ai R g difficulty =
     (\<lambda>m. xneg (search_plain_ai R (applyMove R (current g) m) (search_depth difficulty - 1) False))"
  by (rule ext) (simp add: boardValue_ai_def evaluateBoard_ai_full_window current_game_move)

lemma getBestMove_eq_plain:
  assumes "material_in_window R"
  shows "fst (getBestMove R u g difficulty) = getBestMove_plain R u (current g) difficulty"
proof (cases "game_moves R g = [] \<or> difficulty = ''Beginner''")
  case True
  then show ?thesis
    by (auto simp: getBestMove_def getBestMove_plain_def game_moves_def Let_def)
next
  case False
  then have "fst (getBestMove R u g difficulty) =
      (case fst (select_best (boardValue R g difficulty) (game_moves R g) None (- 9999)) of
         Some m \<Rightarrow> Some m | None \<Rightarrow> js_index (game_moves R g) 0)"
    by (simp add: getBestMove_search)
  then show ?thesis
    using False unfolding boardValue_plain [OF assms] getBestMove_plain_def game_moves_def Let_def
    by simp
qed

lemma getBestMove_ai_eq_plain:
  "fst (getBestMove_ai R u g difficulty) = getBestMove_ai_plain R u (current g) difficulty"
proof (cases "game_moves R g = [] \<or> difficulty = ''Beginner''")
  case True
  then show ?thesis
    by (auto simp: getBestMove_ai_def getBestMove_ai_plain_def game_moves_def Let_def)
next
  case False
  then have "fst (getBestMove_ai R u g difficulty) =
      (case fst (select_best (boardValue_ai R g difficulty) (game_moves R g) None MInf) of
         Some m \<Rightarrow> Some m | None \<Rightarrow> js_index (game_moves R g) 0)"
    by (simp add: getBestMove_ai_search)
  then show ?thesis
    using False unfolding boardValue_ai_plain getBestMove_ai_plain_def game_moves_def Let_def
    by simp
qed

lemma select_best_cong:
  "(\<And>m. m \<in> set ms \<Longrightarrow> s m = s' m) \<Longrightarrow>
   select_best s ms bm bv = select_best s' ms bm bv"
  by (induction ms arbitrary: bm bv) simp_all

lemma Fin_less: "Fin a < Fin b \<longleftrightarrow> a < b"
  by (auto simp: less_xint_def)

lemma MInf_less_Fin: "MInf < Fin a"
  by (simp add: less_xint_def)

lemma boardValue_ai_easy:
  assumes "sideToMove R (applyMove R (current g) m) \<noteq> sideToMove R (current g)"
  shows "boardValue_ai R g ''Easy'' m = Fin (easy_value_for_mover R (current g) m)"
proof -
  have c: "\<And>x y :: color. x \<noteq> y \<Longrightarrow> (x = White) = (y \<noteq> White)"
    by (metis color.exhaust)
  show ?thesis
    using c [OF assms]
    by (simp add: boardValue_ai_def search_depth_def calculatePosition_material
        easy_value_for_mover_def evaluateBoard_material game_turn_def game_board_def
        current_game_move Let_def)
qed

lemma engine_first_maximum:
  assumes "material_in_window R" "game_moves R g \<noteq> []" "difficulty \<noteq> ''Beginner''"
  shows "\<exists>i < length (game_moves R g).
     getBestMove R u g difficulty = (Some (game_moves R g ! i), g) \<and>
     (\<forall>j < length (game_moves R g).
        root_value R (current g) difficulty (game_moves R g ! j)
          \<le> root_value R (current g) difficulty (game_moves R g ! i)) \<and>
     (\<forall>j < i. root_value R (current g) difficulty (game_moves R g ! j)
          < root_value R (current g) difficulty (game_moves R g ! i))"
proof -
  have bv: "boardValue R g difficulty = root_value R (current g) difficulty"
    unfolding boardValue_plain [OF assms(1)] by (rule ext) (simp add: root_value_def)
  have lo: "\<forall>m \<in> set (game_moves R g). - 9999 \<le> root_value R (current g) difficulty m"
    using minimax_plain_bounds [OF assms(1)] by (simp add: root_value_def)
  from chosen_move [OF assms(2), of "root_value R (current g) difficulty" "- 9999"] lo
  show ?thesis
    unfolding getBestMove_search [OF assms(2,3)] bv by blast
qed

lemma variant_easy_first_maximum:
  assumes "game_moves R g \<noteq> []"
    and "\<forall>m \<in> set (game_moves R g).
           sideToMove R (applyMove R (current g) m) \<noteq> sideToMove R (current g)"
  shows "\<exists>i < length (game_moves R g).
     getBestMove_ai R u g ''Easy'' = (Some (game_moves R g ! i), g) \<and>
     (\<forall>j < length (game_moves R g).
        easy_value_for_mover R (current g) (game_moves R g ! j)
          \<le> easy_value_for_mover R (current g) (game_moves R g ! i)) \<and>
     (\<forall>j < i. easy_value_for_mover R (current g) (game_moves R g ! j)
          < easy_value_for_mover R (current g) (game_moves R g ! i))"
proof -
  let ?s = "\<lambda>m. Fin (easy_value_for_mover R (current g) m)"
  have sb: "select_best (boardValue_ai R g ''Easy'') (game_moves R g) None MInf
          = select_best ?s (game_moves R g) None MInf"
    using assms(2) by (intro select_best_cong boardValue_ai_easy) blast
  have ne: "''Easy'' \<noteq> ''Beginner''" by simp
  from chosen_move [OF assms(1), of ?s MInf]
  show ?thesis
    unfolding getBestMove_ai_search [OF assms(1) ne] sb by (simp add: Fin_less) blast
qed

subsection \<open>The double product of the Beginner branch\<close>

lemma round_half_even_near:
  "of_int (round_half_even y) \<le> y + 1 / 2" "y - 1 / 2 \<le> of_int (round_half_even y)"
  unfolding round_half_even_def Let_def by (auto simp: not_less) linarith+

lemma binade_lower:
  assumes "0 < x"
  shows "2 powi (binade x) \<le> x"
proof (cases "1 \<le> x")
  case True
  define N where "N = nat \<lfloor>x\<rfloor>"
  have N: "0 < N" "real N \<le> x" using True by (auto simp: N_def)
  from floorlog_bounds [of N 2] N(1) have "2 ^ (floorlog 2 N - 1) \<le> N" by simp
  moreover have "0 < floorlog 2 N" using N(1) by (simp add: floorlog_def)
  ultimately have p: "(2::real) powi (int (floorlog 2 N) - 1) \<le> real N"
    by (simp add: power_int_def nat_diff_distrib')
  have b: "binade x = int (floorlog 2 N) - 1" using True by (simp add: binade_def N_def)
  show ?thesis unfolding b using p N(2) by linarith
next
  case False
  define M where "M = nat (\<lceil>1 / x\<rceil> - 1)"
  have x1: "1 < 1 / x" using False assms by simp
  then have c: "2 \<le> \<lceil>1 / x\<rceil>" by linarith
  have rM: "real M = of_int (\<lceil>1 / x\<rceil> - 1)"
    unfolding M_def by (rule of_nat_nat) (use c in linarith)
  have M: "0 < M" "real M + 1 = of_int \<lceil>1 / x\<rceil>"
    using c rM unfolding M_def by (linarith, simp)
  from floorlog_bounds [of M 2] M(1) have "M < 2 ^ floorlog 2 M" by simp
  then have "Suc M \<le> 2 ^ floorlog 2 M" by simp
  then have "real (Suc M) \<le> real (2 ^ floorlog 2 M)" by (simp only: of_nat_le_iff)
  then have "real M + 1 \<le> 2 ^ floorlog 2 M" by simp
  then have "1 / x \<le> 2 ^ floorlog 2 M"
    using M(2) by (metis le_of_int_ceiling order_trans)
  then have l: "1 / 2 ^ floorlog 2 M \<le> x"
    using assms by (simp add: field_simps)
  have b: "binade x = - int (floorlog 2 M)" using False by (simp add: binade_def M_def)
  have p: "2 powi (- int (floorlog 2 M)) = 1 / (2::real) ^ floorlog 2 M"
    by (simp add: power_int_minus_divide)
  show ?thesis unfolding b p by (rule l)
qed

lemma binade_half:
  assumes "1 / 2 \<le> u" "u < 1"
  shows "binade u = - 1"
proof -
  have "1 < 1 / u" "1 / u \<le> 2" using assms by (simp_all add: field_simps)
  then have "\<lceil>1 / u\<rceil> = 2" by (simp add: ceiling_eq_iff)
  then show ?thesis using assms by (simp add: binade_def floorlog_def)
qed

lemma double_below_one:
  assumes "to_double u = u" "0 \<le> u" "u < 1"
  shows "u \<le> 1 - 1 / 2 ^ 53"
proof (cases "u < 1 / 2")
  case True
  then show ?thesis by simp
next
  case False
  then have h: "1 / 2 \<le> u" by simp
  have q: "quantum u = 1 / 2 ^ 53"
    by (simp add: quantum_def binade_half [OF h assms(3)] power_int_minus_divide)
  define K where "K = round_half_even (u / quantum u)"
  have u: "u = of_int K / 2 ^ 53"
    using assms(1) h by (simp add: to_double_def K_def q split: if_splits)
  have "of_int K < (of_int (2 ^ 53) :: real)" using assms(3) unfolding u by simp
  then have "K < 2 ^ 53" by (simp only: of_int_less_iff)
  then have "K \<le> 2 ^ 53 - 1" by simp
  then have "(of_int K :: real) \<le> of_int (2 ^ 53 - 1)" by (simp only: of_int_le_iff)
  then show ?thesis unfolding u by (simp add: field_simps)
qed

lemma to_double_product_below:
  fixes n :: nat
  assumes "to_double u = u" "0 \<le> u" "u < 1" "0 < n" "n < 2 ^ 53"
  shows "0 \<le> to_double (u * real n) \<and> to_double (u * real n) < real n"
proof (cases "u * real n \<le> 0")
  case True
  moreover have "0 \<le> u * real n" using assms(2) by simp
  ultimately have "u * real n = 0" by linarith
  then show ?thesis using assms(4) by (simp add: to_double_def)
next
  case False
  define x where "x = u * real n"
  have x0: "0 < x" using False by (simp add: x_def)
  have ub: "u \<le> 1 - 1 / 2 ^ 53" by (rule double_below_one) fact+
  have xn: "x \<le> real n - real n / 2 ^ 53"
  proof -
    have "u * real n \<le> (1 - 1 / 2 ^ 53) * real n"
      using ub by (intro mult_right_mono) simp_all
    then show ?thesis by (simp add: x_def algebra_simps)
  qed
  have "0 < real n / 2 ^ 53" using assms(4) by simp
  then have xlt: "x < real n" using xn by linarith
  define E where "E = max (binade x) (- 1022)"
  have "real n < real (2 ^ 53)" using assms(5) by (simp only: of_nat_less_iff)
  then have n53: "real n < 2 ^ 53" by simp
  have "2 powi (binade x) < (2::real) powi 53"
    using binade_lower [OF x0] xlt n53 by simp
  then have "binade x < 53" by (intro power_int_le_imp_less_exp [of 2]) simp_all
  then have E52: "E \<le> 52" by (simp add: E_def)
  define k where "k = nat (52 - E)"
  define P :: real where "P = 2 ^ k"
  have P: "1 \<le> P" by (simp add: P_def)
  have q: "quantum x = 1 / P"
  proof -
    have "E - 52 = - int k" using E52 by (simp add: k_def)
    then show ?thesis by (simp add: quantum_def E_def [symmetric] P_def power_int_minus_divide)
  qed
  define y where "y = x / quantum x"
  have y: "y = x * P" by (simp add: y_def q)
  define K :: int where "K = int n * 2 ^ k"
  have K: "of_int K = real n * P" by (simp add: K_def P_def)
  have yK: "y \<le> of_int K - of_int K / 2 ^ 53"
  proof -
    have "x * P \<le> (real n - real n / 2 ^ 53) * P"
      using xn P by (intro mult_right_mono) simp_all
    then show ?thesis by (simp add: y K algebra_simps)
  qed
  have Kbig: "(2::real) ^ 52 < of_int K"
  proof (cases "- 1022 \<le> binade x")
    case True
    then have e: "E = binade x" by (simp add: E_def)
    have "(2::real) powi E * 2 powi (52 - E) = 2 powi 52"
      by (simp flip: power_int_add)
    moreover have "(2::real) powi (52 - E) = P"
      using E52 by (simp add: P_def k_def power_int_def)
    ultimately have "(2::real) ^ 52 = 2 powi E * P" by simp
    also have "\<dots> \<le> x * P" using binade_lower [OF x0] P unfolding e by (intro mult_right_mono) simp_all
    also have "\<dots> < real n * P" using xlt P by (intro mult_strict_right_mono) simp_all
    finally show ?thesis by (simp add: K)
  next
    case False
    then have e: "E = - 1022" by (simp add: E_def)
    have "k = 1074" by (simp add: k_def e)
    then have "(2::real) ^ 52 < P" unfolding P_def by (intro power_strict_increasing) simp_all
    also have "P \<le> real n * P" using assms(4) P by simp
    finally show ?thesis by (simp add: K)
  qed
  have "y < of_int K - 1 / 2" using yK Kbig by (simp add: field_simps)
  then have "of_int (round_half_even y) < (of_int K :: real)"
    using round_half_even_near(1) [of y] by linarith
  then have "round_half_even y \<le> K - 1" by simp
  then have "of_int (round_half_even y) \<le> (of_int (K - 1) :: real)" by (simp only: of_int_le_iff)
  then have le: "of_int (round_half_even y) \<le> (of_int K :: real) - 1" by simp
  have "0 \<le> y" using x0 P by (simp add: y)
  then have "- 1 < (of_int (round_half_even y) :: real)"
    using round_half_even_near(2) [of y] by linarith
  then have ge: "0 \<le> round_half_even y" by linarith
  have td: "to_double x = of_int (round_half_even y) / P"
    using x0 by (simp add: to_double_def y_def q)
  have "to_double x \<le> (of_int K - 1) / P"
    unfolding td using le P by (intro divide_right_mono) simp_all
  also have "\<dots> = real n - 1 / P" using P by (simp add: K field_simps)
  also have "\<dots> < real n" using P by simp
  finally have "to_double x < real n" .
  moreover have "0 \<le> to_double x" unfolding td using ge P by simp
  ultimately show ?thesis by (simp add: x_def)
qed

lemma random_index_in_range:
  fixes n :: nat
  assumes "to_double u = u" "0 \<le> u" "u < 1" "0 < n" "n < 2 ^ 32"
  shows "nat \<lfloor>to_double (u * real n)\<rfloor> < n"
proof -
  have "n < 2 ^ 53" using assms(5) by (rule less_trans) simp
  from to_double_product_below [OF assms(1-4) this]
  have "0 \<le> to_double (u * real n)" "to_double (u * real n) < real n" by simp_all
  then have "\<lfloor>to_double (u * real n)\<rfloor> < int n" by (simp add: floor_less_iff)
  then show ?thesis using assms(4) by linarith
qed

lemma one_third_double: "to_double one_third = one_third"
  by (simp add: one_third_def to_double_def quantum_def binade_def compute_floorlog
      round_half_even_def power_int_minus_divide)

lemma one_third_times_three: "to_double (one_third * real (3::nat)) = 1"
  by (simp add: one_third_def to_double_def quantum_def binade_def compute_floorlog
      round_half_even_def power_int_minus_divide)

text \<open>
  The double nearest to 0.95 times 20: the exact product lies below 19, the double product
  is 19.
\<close>

lemma double_product_rounds_up:
  "\<lfloor>4278419646001971 / 2 ^ 52 * real (20::nat)\<rfloor> = 18"
  "\<lfloor>to_double (4278419646001971 / 2 ^ 52 * real (20::nat))\<rfloor> = 19"
  by (simp_all add: to_double_def quantum_def binade_def compute_floorlog round_half_even_def
      power_int_minus_divide)

lemma one_third_range: "0 \<le> one_third" "one_third < 1"
  by (simp_all add: one_third_def)

lemma getBestMove_beginner:
  assumes "game_moves R g \<noteq> []"
  shows "getBestMove R u g ''Beginner'' =
           (js_index (game_moves R g)
              (nat \<lfloor>to_double (u * real (length (game_moves R g)))\<rfloor>), g)"
    and "getBestMove_ai R u g ''Beginner'' =
           (js_index (game_moves R g)
              (nat \<lfloor>to_double (u * real (length (game_moves R g)))\<rfloor>), g)"
  using assms by (simp_all add: getBestMove_def getBestMove_ai_def Let_def)

subsection \<open>The sample positions\<close>

lemma sample_fields:
  "legalMoves sample_rules = sample_legal"
  "applyMove sample_rules = sample_apply"
  "boardOf sample_rules = sample_board"
  "sideToMove sample_rules = sample_side"
  by (simp_all add: sample_rules_def)

lemma sample_material:
  "material (sample_board Fork_w) = 10"
  "material (sample_board Fork_w_g5) = 10"
  "material (sample_board Fork_w_gxf5) = 20"
  "material (sample_board Fork_w_gxh5) = 20"
  "material (sample_board Fork_b) = - 10"
  "material (sample_board Fork_b_g4) = - 10"
  "material (sample_board Fork_b_gxh4) = - 20"
  "material (sample_board Fork_b_gxf4) = - 20"
  "material (sample_board Locked_w) = 10"
  "material (sample_board Locked_b) = 10"
  "material (sample_board Stalemate_h8) = 90"
  "material (sample_board Checkmate_h8) = 90"
  by (simp_all add: material_def sample_board_def board_of_rows_def piece_of_char_def
      eval_nat_numeral)

lemma sample_board_locked: "sample_board Locked_b = sample_board Locked_w"
  by (simp add: sample_board_def)

lemmas sample_simps = sample_fields game_board_def game_turn_def game_moves_def game_move_def
  fork_w_game_def fork_b_game_def sample_material

lemma sample_material_in_window: "material_in_window sample_rules"
  unfolding material_in_window_def
proof
  fix g :: "sample_position game"
  show "\<bar>evaluateBoard sample_rules g\<bar> < 10000"
    by (cases "current g") (simp_all add: evaluateBoard_material sample_simps)
qed

lemma fork_w_moves: "game_moves sample_rules fork_w_game = [''g5'', ''gxf5'', ''gxh5'']"
  by (simp add: sample_simps)

lemma fork_b_moves: "game_moves sample_rules fork_b_game = [''g4'', ''gxh4'', ''gxf4'']"
  by (simp add: sample_simps)

lemma fork_w_boardValue_easy:
  "boardValue sample_rules fork_w_game ''Easy'' ''g5'' = - 10"
  "boardValue sample_rules fork_w_game ''Easy'' ''gxf5'' = - 20"
  "boardValue sample_rules fork_w_game ''Easy'' ''gxh5'' = - 20"
  by (simp_all add: boardValue_def search_depth_def evaluateBoard_material sample_simps)

lemma fork_b_boardValue_easy:
  "boardValue sample_rules fork_b_game ''Easy'' ''g4'' = 10"
  "boardValue sample_rules fork_b_game ''Easy'' ''gxh4'' = 20"
  "boardValue sample_rules fork_b_game ''Easy'' ''gxf4'' = 20"
  by (simp_all add: boardValue_def search_depth_def evaluateBoard_material sample_simps)

lemma fork_w_boardValue_ai_easy:
  "boardValue_ai sample_rules fork_w_game ''Easy'' ''g5'' = Fin 10"
  "boardValue_ai sample_rules fork_w_game ''Easy'' ''gxf5'' = Fin 20"
  "boardValue_ai sample_rules fork_w_game ''Easy'' ''gxh5'' = Fin 20"
  by (simp_all add: boardValue_ai_def search_depth_def calculatePosition_material sample_simps)

lemma fork_b_boardValue_ai_easy:
  "boardValue_ai sample_rules fork_b_game ''Easy'' ''g4'' = Fin 10"
  "boardValue_ai sample_rules fork_b_game ''Easy'' ''gxh4'' = Fin 20"
  "boardValue_ai sample_rules fork_b_game ''Easy'' ''gxf4'' = Fin 20"
  by (simp_all add: boardValue_ai_def search_depth_def calculatePosition_material sample_simps)

lemma fork_w_getBestMove_easy:
  "getBestMove sample_rules u fork_w_game ''Easy'' = (Some ''g5'', fork_w_game)"
  by (subst getBestMove_search) (simp_all add: fork_w_moves fork_w_boardValue_easy)

lemma fork_b_getBestMove_easy:
  "getBestMove sample_rules u fork_b_game ''Easy'' = (Some ''gxh4'', fork_b_game)"
  by (subst getBestMove_search) (simp_all add: fork_b_moves fork_b_boardValue_easy)

lemma fork_w_getBestMove_ai_easy:
  "getBestMove_ai sample_rules u fork_w_game ''Easy'' = (Some ''gxf5'', fork_w_game)"
  by (subst getBestMove_ai_search)
    (simp_all add: fork_w_moves fork_w_boardValue_ai_easy Fin_less MInf_less_Fin)

lemma fork_b_getBestMove_ai_easy:
  "getBestMove_ai sample_rules u fork_b_game ''Easy'' = (Some ''gxh4'', fork_b_game)"
  by (subst getBestMove_ai_search)
    (simp_all add: fork_b_moves fork_b_boardValue_ai_easy Fin_less MInf_less_Fin)

lemma fork_w_boardValue_deep:
  assumes "difficulty \<notin> {''Beginner'', ''Easy''}" "m \<in> set [''g5'', ''gxf5'', ''gxh5'']"
  shows "boardValue sample_rules fork_w_game difficulty m = 9999"
    and "boardValue_ai sample_rules fork_w_game difficulty m = MInf"
proof -
  obtain k where k: "search_depth difficulty - 1 = Suc k"
    using assms(1) by (cases "difficulty = ''Hard''") (simp_all add: search_depth_def)
  show "boardValue sample_rules fork_w_game difficulty m = 9999"
    using assms(2) unfolding boardValue_def k by (auto simp: sample_simps)
  show "boardValue_ai sample_rules fork_w_game difficulty m = MInf"
    using assms(2) unfolding boardValue_ai_def k by (auto simp: sample_simps)
qed

lemma fork_w_getBestMove_deep:
  assumes "difficulty \<notin> {''Beginner'', ''Easy''}"
  shows "getBestMove sample_rules u fork_w_game difficulty = (Some ''g5'', fork_w_game)"
    and "getBestMove_ai sample_rules u fork_w_game difficulty = (Some ''g5'', fork_w_game)"
proof -
  have nb: "difficulty \<noteq> ''Beginner''" using assms by simp
  have ne: "game_moves sample_rules fork_w_game \<noteq> []" by (simp add: fork_w_moves)
  show "getBestMove sample_rules u fork_w_game difficulty = (Some ''g5'', fork_w_game)"
    unfolding getBestMove_search [OF ne nb] fork_w_moves
    by (simp add: fork_w_boardValue_deep [OF assms])
  show "getBestMove_ai sample_rules u fork_w_game difficulty = (Some ''g5'', fork_w_game)"
    unfolding getBestMove_ai_search [OF ne nb] fork_w_moves
    by (simp add: fork_w_boardValue_deep [OF assms] js_index_def)
qed

lemma fork_w_easy_values:
  "easy_value_for_mover sample_rules Fork_w ''g5'' = 10"
  "easy_value_for_mover sample_rules Fork_w ''gxf5'' = 20"
  "easy_value_for_mover sample_rules Fork_w ''gxh5'' = 20"
  by (simp_all add: easy_value_for_mover_def evaluateBoard_material sample_simps)

lemma fork_w_root_values:
  "root_value sample_rules Fork_w ''Easy'' ''g5'' = - 10"
  "root_value sample_rules Fork_w ''Easy'' ''gxf5'' = - 20"
  "root_value sample_rules Fork_w ''Easy'' ''gxh5'' = - 20"
  by (simp_all add: root_value_def search_depth_def evaluateBoard_material sample_simps)

section \<open>The leaf of the search and the Evaluator\<close>

text \<open>
  C2, as amended. At depth 0 \<^verbatim>\<open>minimax\<close> of \<^verbatim>\<open>lib/engine.ts\<close> returns the negation of the
  White-positive material sum, whatever the window and the maximizing flag, and the search
  of the variant returns the material sum from the point of view of the side to move: the
  sum itself when White is to move, its negation when Black is. Neither changes the game
  object.
\<close>

theorem leaf_scores:
  "minimax R g 0 alpha beta mx = (- material (game_board R g), g) \<and>
   evaluateBoard_ai R g 0 a b mx' =
     (Fin (if game_turn R g = White then material (game_board R g)
           else - material (game_board R g)), g)"
  by (simp add: evaluateBoard_material calculatePosition_material)

text \<open>
  C2 as stated fails: in \<open>Fork_w\<close>, where White is a pawn up, the Evaluator of
  \<^verbatim>\<open>lib/engine.ts\<close> scores \<open>10\<close> and the leaf returns \<open>-10\<close>; in \<open>Locked_b\<close>, where White is a
  pawn up and Black is to move, the leaf of the variant returns \<open>-10\<close> for the material
  sum \<open>10\<close>.
\<close>

theorem leaf_not_evaluator_counterexample:
  "fst (minimax sample_rules fork_w_game 0 (- 10000) 10000 False) = - 10 \<and>
   evaluateBoard sample_rules fork_w_game = 10 \<and>
   fst (evaluateBoard_ai sample_rules \<lparr>current = Locked_b, history = []\<rparr> 0 MInf PInf False)
     = Fin (- 10) \<and>
   material (boardOf sample_rules Locked_b) = 10"
  by (simp add: evaluateBoard_material calculatePosition_material sample_simps)

text \<open>
  C3, as amended. \<^verbatim>\<open>evaluateBoard\<close> of \<^verbatim>\<open>lib/engine.ts\<close> is the sum over the 64 squares of
  the piece values (pawn 10, knight 30, bishop 30, rook 50, queen 90, king 900), positive
  for White, negative for Black, zero for an empty square, and two game objects with the
  same placement get the same score whoever is to move. \<^verbatim>\<open>calculatePosition\<close> of the
  variant is that sum when White is to move and its negation when Black is to move.
\<close>

theorem evaluator_material:
  "evaluateBoard R g = material (game_board R g) \<and>
   (game_board R g = game_board R' g' \<longrightarrow> evaluateBoard R g = evaluateBoard R' g') \<and>
   calculatePosition R g =
     (if game_turn R g = White then material (game_board R g) else - material (game_board R g))"
  by (simp add: evaluateBoard_material calculatePosition_material)

theorem evaluator_material_witness:
  "game_board sample_rules \<lparr>current = Locked_w, history = []\<rparr>
     = game_board sample_rules \<lparr>current = Locked_b, history = []\<rparr> \<and>
   evaluateBoard sample_rules \<lparr>current = Locked_w, history = []\<rparr> = 10 \<and>
   evaluateBoard sample_rules \<lparr>current = Locked_b, history = []\<rparr> = 10"
  using evaluator_material [of sample_rules "\<lparr>current = Locked_w, history = []\<rparr>"
      sample_rules "\<lparr>current = Locked_b, history = []\<rparr>"]
  by (simp add: sample_simps sample_board_locked)

text \<open>
  C3 as stated fails for \<^verbatim>\<open>calculatePosition\<close>: the placement of \<open>Locked_w\<close> and \<open>Locked_b\<close>
  scores \<open>10\<close> with White to move and \<open>-10\<close> with Black to move.
\<close>

theorem evaluator_turn_counterexample:
  "boardOf sample_rules Locked_w = boardOf sample_rules Locked_b \<and>
   sideToMove sample_rules Locked_w \<noteq> sideToMove sample_rules Locked_b \<and>
   calculatePosition sample_rules \<lparr>current = Locked_w, history = []\<rparr> = 10 \<and>
   calculatePosition sample_rules \<lparr>current = Locked_b, history = []\<rparr> = - 10"
  by (simp add: calculatePosition_material sample_simps sample_board_locked)

section \<open>The search leaves the game object as it found it\<close>

text \<open>
  C4. After \<^verbatim>\<open>getBestMove\<close> returns, in either file and for every difficulty, the game
  object (position and history) is the one passed in; the same holds for every call of
  the recursive search, at every depth, window and maximizing flag, so each
  \<^verbatim>\<open>game.move\<close> of the loops, also in an iteration that ends in \<^verbatim>\<open>break\<close>, is taken back.
\<close>

theorem search_restores_position:
  "snd (getBestMove R u g difficulty) = g \<and>
   snd (getBestMove_ai R u g difficulty) = g \<and>
   snd (minimax R g d alpha beta mx) = g \<and>
   snd (evaluateBoard_ai R g d a b mx') = g"
  by (simp add: getBestMove_def getBestMove_ai_def Let_def root_loop_pure root_loop_ai_pure
      case_prod_beta minimax_game evaluateBoard_ai_game)

section \<open>Positions without legal moves\<close>

text \<open>
  C5. When the legal-move list of the position is empty, \<^verbatim>\<open>getBestMove\<close> of either file
  returns the empty result for every difficulty and leaves the game object untouched;
  the outcome is the same whatever the board, the side to move and the effect of moves
  are, so none of them is consulted.
\<close>

theorem no_legal_move_no_move:
  assumes "legalMoves R (current g) = []"
  shows "getBestMove R u g difficulty = (None, g) \<and>
         getBestMove_ai R u g difficulty = (None, g) \<and>
         getBestMove (R\<lparr>applyMove := ap, boardOf := bd, sideToMove := sd\<rparr>) u g difficulty
           = (None, g) \<and>
         getBestMove_ai (R\<lparr>applyMove := ap, boardOf := bd, sideToMove := sd\<rparr>) u g difficulty
           = (None, g)"
  using assms by (simp add: getBestMove_def getBestMove_ai_def game_moves_def)

theorem no_legal_move_no_move_witness:
  "legalMoves sample_rules (current \<lparr>current = Stalemate_h8, history = []\<rparr>) = [] \<and>
   getBestMove sample_rules (1 / 2) \<lparr>current = Stalemate_h8, history = []\<rparr> ''Beginner''
     = (None, \<lparr>current = Stalemate_h8, history = []\<rparr>) \<and>
   getBestMove_ai sample_rules (1 / 2) \<lparr>current = Stalemate_h8, history = []\<rparr> ''Master''
     = (None, \<lparr>current = Stalemate_h8, history = []\<rparr>)"
proof -
  have h: "legalMoves sample_rules (current \<lparr>current = Stalemate_h8, history = []\<rparr>) = []"
    by (simp add: sample_fields)
  show ?thesis
    using h no_legal_move_no_move [OF h, of "1 / 2" "''Beginner''"]
      no_legal_move_no_move [OF h, of "1 / 2" "''Master''"]
    by simp
qed

text \<open>
  C10. A search node of depth greater than 0 whose position has no legal move returns
  the sentinel of its branch (\<open>-9999\<close> or \<^verbatim>\<open>-Infinity\<close> when maximizing, \<open>9999\<close> or
  \<^verbatim>\<open>Infinity\<close> when minimizing) whatever the board and the side to move are, so the
  Evaluator plays no part; two such positions, a checkmate and a stalemate among them,
  get the same score.
\<close>

theorem no_moves_inside_search:
  assumes "legalMoves R (current g) = []" "legalMoves R (current g') = []" "0 < d"
  shows "minimax (R\<lparr>boardOf := bd, sideToMove := sd\<rparr>) g d alpha beta mx
           = (if mx then - 9999 else 9999, g) \<and>
         evaluateBoard_ai (R\<lparr>boardOf := bd, sideToMove := sd\<rparr>) g d a b mx
           = (if mx then MInf else PInf, g) \<and>
         fst (minimax R g d alpha beta mx) = fst (minimax R g' d alpha' beta' mx) \<and>
         fst (evaluateBoard_ai R g d a b mx) = fst (evaluateBoard_ai R g' d a' b' mx)"
proof -
  obtain k where d: "d = Suc k" using assms(3) by (cases d) simp_all
  show ?thesis
    using assms(1,2) unfolding d by (simp add: game_moves_def)
qed

theorem no_moves_inside_search_witness:
  "legalMoves sample_rules (current \<lparr>current = Checkmate_h8, history = []\<rparr>) = [] \<and>
   legalMoves sample_rules (current \<lparr>current = Stalemate_h8, history = []\<rparr>) = [] \<and>
   (0::nat) < 2 \<and>
   fst (minimax sample_rules \<lparr>current = Checkmate_h8, history = []\<rparr> 2 (- 10000) 10000 False) = 9999 \<and>
   fst (minimax sample_rules \<lparr>current = Stalemate_h8, history = []\<rparr> 2 (- 10000) 10000 False) = 9999 \<and>
   fst (evaluateBoard_ai sample_rules \<lparr>current = Checkmate_h8, history = []\<rparr> 2 MInf PInf False)
     = PInf \<and>
   fst (evaluateBoard_ai sample_rules \<lparr>current = Stalemate_h8, history = []\<rparr> 2 MInf PInf False)
     = PInf"
proof -
  have h1: "legalMoves sample_rules (current \<lparr>current = Checkmate_h8, history = []\<rparr>) = []"
    by (simp add: sample_fields)
  have h2: "legalMoves sample_rules (current \<lparr>current = Stalemate_h8, history = []\<rparr>) = []"
    by (simp add: sample_fields)
  have h3: "(0::nat) < 2" by simp
  have e: "sample_rules\<lparr>boardOf := sample_board, sideToMove := sample_side\<rparr> = sample_rules"
    by (simp add: sample_rules_def)
  note t = no_moves_inside_search [OF h1 h2 h3, where bd = sample_board and sd = sample_side
        and alpha = "- 10000" and beta = 10000 and mx = False and a = MInf and b = PInf
        and alpha' = "- 10000" and beta' = 10000 and a' = MInf and b' = PInf, unfolded e]
  from t have c1: "fst (minimax sample_rules \<lparr>current = Checkmate_h8, history = []\<rparr> 2
      (- 10000) 10000 False) = 9999" by simp
  from t have c2: "fst (evaluateBoard_ai sample_rules \<lparr>current = Checkmate_h8, history = []\<rparr> 2
      MInf PInf False) = PInf" by simp
  from t c1 have c3: "fst (minimax sample_rules \<lparr>current = Stalemate_h8, history = []\<rparr> 2
      (- 10000) 10000 False) = 9999" by metis
  from t c2 have c4: "fst (evaluateBoard_ai sample_rules \<lparr>current = Stalemate_h8, history = []\<rparr> 2
      MInf PInf False) = PInf" by metis
  show ?thesis using h1 h2 c1 c2 c3 c4 by simp
qed

section \<open>The move returned at the root\<close>

text \<open>
  C9. When the position has a legal move, \<^verbatim>\<open>getBestMove\<close> of either file returns a move
  for every difficulty, and the move is a member of the legal-move list. In the Beginner
  branch this holds for every double \<open>u\<close> with \<open>0 \<le> u < 1\<close> that \<^verbatim>\<open>Math.random()\<close> can
  return and every move list a JavaScript array can hold: the floor of the double product
  \<^verbatim>\<open>u * moves.length\<close> is an index of the list. Outside the Beginner branch the move is
  either the first legal move or a move whose score strictly exceeds the initial
  \<^verbatim>\<open>bestValue\<close> (\<open>-9999\<close>, \<^verbatim>\<open>-Infinity\<close>): when no score exceeds it, the first legal move is
  returned.
\<close>

theorem returns_a_legal_move:
  assumes "game_moves R g \<noteq> []"
    and "to_double u = u" "0 \<le> u" "u < 1"
    and "length (game_moves R g) < 2 ^ 32"
  shows "(\<exists>i < length (game_moves R g).
            fst (getBestMove R u g difficulty) = Some (game_moves R g ! i) \<and>
            game_moves R g ! i \<in> set (game_moves R g) \<and>
            (difficulty = ''Beginner'' \<or> i = 0 \<or>
             - 9999 < boardValue R g difficulty (game_moves R g ! i))) \<and>
         (\<exists>i < length (game_moves R g).
            fst (getBestMove_ai R u g difficulty) = Some (game_moves R g ! i) \<and>
            game_moves R g ! i \<in> set (game_moves R g) \<and>
            (difficulty = ''Beginner'' \<or> i = 0 \<or>
             MInf < boardValue_ai R g difficulty (game_moves R g ! i)))"
proof (cases "difficulty = ''Beginner''")
  case True
  define k where "k = nat \<lfloor>to_double (u * real (length (game_moves R g)))\<rfloor>"
  have k: "k < length (game_moves R g)"
    unfolding k_def using assms by (intro random_index_in_range) simp_all
  have "fst (getBestMove R u g difficulty) = Some (game_moves R g ! k)"
       "fst (getBestMove_ai R u g difficulty) = Some (game_moves R g ! k)"
    using k True by (simp_all add: getBestMove_beginner [OF assms(1)] js_index_def k_def)
  then show ?thesis using k True by (metis nth_mem)
next
  case False
  from chosen_move_or_first [OF assms(1), of "boardValue R g difficulty" "- 9999"]
  obtain i where i: "i < length (game_moves R g)"
      "fst (getBestMove R u g difficulty) = Some (game_moves R g ! i)"
      "i = 0 \<or> - 9999 < boardValue R g difficulty (game_moves R g ! i)"
    using False by (auto simp: getBestMove_search [OF assms(1)])
  from chosen_move_or_first [OF assms(1), of "boardValue_ai R g difficulty" MInf]
  obtain k where k: "k < length (game_moves R g)"
      "fst (getBestMove_ai R u g difficulty) = Some (game_moves R g ! k)"
      "k = 0 \<or> MInf < boardValue_ai R g difficulty (game_moves R g ! k)"
    using False by (auto simp: getBestMove_ai_search [OF assms(1)])
  show ?thesis using i k by (metis nth_mem)
qed

text \<open>
  In \<open>Fork_w\<close>, with three legal moves and \<^verbatim>\<open>Math.random()\<close> returning the double nearest
  to one third, the double product is exactly 1 and the Beginner branch returns the
  second move; the exact product lies below 1. At Hard every score of the variant is
  \<^verbatim>\<open>-Infinity\<close> and the first legal move is returned.
\<close>

theorem returns_a_legal_move_witness:
  "game_moves sample_rules fork_w_game \<noteq> [] \<and>
   to_double one_third = one_third \<and> 0 \<le> one_third \<and> one_third < 1 \<and>
   length (game_moves sample_rules fork_w_game) < 2 ^ 32 \<and>
   one_third * 3 < 1 \<and>
   fst (getBestMove sample_rules one_third fork_w_game ''Beginner'') = Some ''gxf5'' \<and>
   fst (getBestMove_ai sample_rules one_third fork_w_game ''Beginner'') = Some ''gxf5'' \<and>
   ''gxf5'' \<in> set (game_moves sample_rules fork_w_game) \<and>
   boardValue_ai sample_rules fork_w_game ''Hard'' ''g5'' = MInf \<and>
   boardValue_ai sample_rules fork_w_game ''Hard'' ''gxf5'' = MInf \<and>
   boardValue_ai sample_rules fork_w_game ''Hard'' ''gxh5'' = MInf \<and>
   fst (getBestMove_ai sample_rules one_third fork_w_game ''Hard'') = Some ''g5''"
proof -
  have h1: "game_moves sample_rules fork_w_game \<noteq> []" by (simp add: fork_w_moves)
  have h5: "length (game_moves sample_rules fork_w_game) < 2 ^ 32" by (simp add: fork_w_moves)
  have hard: "''Hard'' \<notin> {''Beginner'', ''Easy''}" by simp
  have b: "fst (getBestMove sample_rules one_third fork_w_game ''Beginner'') = Some ''gxf5''"
      "fst (getBestMove_ai sample_rules one_third fork_w_game ''Beginner'') = Some ''gxf5''"
    using one_third_times_three
    by (simp_all add: getBestMove_beginner [OF h1] fork_w_moves js_index_def)
  have lt: "one_third * 3 < 1" by (simp add: one_third_def)
  show ?thesis
    using returns_a_legal_move [OF h1 one_third_double one_third_range h5, of "''Beginner''"]
      h1 h5 b lt one_third_double one_third_range
      fork_w_boardValue_deep(2) [OF hard] fork_w_getBestMove_deep(2) [OF hard, of one_third]
    by (simp add: fork_w_moves)
qed

text \<open>
  C6. Outside the Beginner branch, in either file, the move returned for a position with
  a legal move is the first root move, in the collaborator's order, of greatest score:
  no earlier root move has an equal or greater score, and no root move has a greater one
  (for \<^verbatim>\<open>lib/engine.ts\<close> on a rules collaborator whose boards keep the material sum inside
  the window \<open>(-10000, 10000)\<close>, as the boards of chess do; for the variant on every
  collaborator). The running best of the root loop is left as it is by a move whose score
  is not strictly greater than \<^verbatim>\<open>bestValue\<close>.
\<close>

theorem first_of_equal_scores:
  assumes "game_moves R g \<noteq> []" "difficulty \<noteq> ''Beginner''"
  shows "(\<exists>i < length (game_moves R g).
            fst (getBestMove R u g difficulty) = Some (game_moves R g ! i) \<and>
            (\<forall>j < i. boardValue R g difficulty (game_moves R g ! j)
                      < boardValue R g difficulty (game_moves R g ! i)) \<and>
            (material_in_window R \<longrightarrow>
               (\<forall>j < length (game_moves R g).
                  boardValue R g difficulty (game_moves R g ! j)
                    \<le> boardValue R g difficulty (game_moves R g ! i)))) \<and>
         (\<exists>i < length (game_moves R g).
            fst (getBestMove_ai R u g difficulty) = Some (game_moves R g ! i) \<and>
            (\<forall>j < i. boardValue_ai R g difficulty (game_moves R g ! j)
                      < boardValue_ai R g difficulty (game_moves R g ! i)) \<and>
            (\<forall>j < length (game_moves R g).
               boardValue_ai R g difficulty (game_moves R g ! j)
                 \<le> boardValue_ai R g difficulty (game_moves R g ! i))) \<and>
         (boardValue R g difficulty m \<le> bestValue \<longrightarrow>
            root_loop R (search_depth difficulty) (m # ms) g bestMove bestValue =
            root_loop R (search_depth difficulty) ms g bestMove bestValue) \<and>
         (boardValue_ai R g difficulty m \<le> bestValue' \<longrightarrow>
            root_loop_ai R (search_depth difficulty) (m # ms) g bestMove bestValue' =
            root_loop_ai R (search_depth difficulty) ms g bestMove bestValue')"
proof -
  have lo: "material_in_window R \<longrightarrow>
      (\<forall>m \<in> set (game_moves R g). - 9999 \<le> boardValue R g difficulty m)"
  proof
    assume w: "material_in_window R"
    show "\<forall>m \<in> set (game_moves R g). - 9999 \<le> boardValue R g difficulty m"
      unfolding boardValue_plain [OF w] using minimax_plain_bounds [OF w] by simp
  qed
  from chosen_move [OF assms(1), of "boardValue R g difficulty" "- 9999"] lo
  have a: "\<exists>i < length (game_moves R g).
            fst (getBestMove R u g difficulty) = Some (game_moves R g ! i) \<and>
            (\<forall>j < i. boardValue R g difficulty (game_moves R g ! j)
                      < boardValue R g difficulty (game_moves R g ! i)) \<and>
            (material_in_window R \<longrightarrow>
               (\<forall>j < length (game_moves R g).
                  boardValue R g difficulty (game_moves R g ! j)
                    \<le> boardValue R g difficulty (game_moves R g ! i)))"
    unfolding getBestMove_search [OF assms] fst_conv by blast
  have "\<forall>m \<in> set (game_moves R g). MInf \<le> boardValue_ai R g difficulty m" by simp
  with chosen_move [OF assms(1), of "boardValue_ai R g difficulty" MInf]
  have b: "\<exists>i < length (game_moves R g).
            fst (getBestMove_ai R u g difficulty) = Some (game_moves R g ! i) \<and>
            (\<forall>j < i. boardValue_ai R g difficulty (game_moves R g ! j)
                      < boardValue_ai R g difficulty (game_moves R g ! i)) \<and>
            (\<forall>j < length (game_moves R g).
               boardValue_ai R g difficulty (game_moves R g ! j)
                 \<le> boardValue_ai R g difficulty (game_moves R g ! i))"
    unfolding getBestMove_ai_search [OF assms] fst_conv by blast
  show ?thesis
    using a b root_loop_keeps_best [of R g difficulty m bestValue ms bestMove]
      root_loop_ai_keeps_best [of R g difficulty m bestValue' ms bestMove]
    by blast
qed

text \<open>
  In \<open>Fork_b\<close> the root scores at Easy are 10, 20, 20 in both files: the two captures tie
  for the greatest score and the first of them, the second move of the list, is returned.
\<close>

theorem first_of_equal_scores_witness:
  "game_moves sample_rules fork_b_game \<noteq> [] \<and> ''Easy'' \<noteq> ''Beginner'' \<and>
   material_in_window sample_rules \<and>
   game_moves sample_rules fork_b_game = [''g4'', ''gxh4'', ''gxf4''] \<and>
   boardValue sample_rules fork_b_game ''Easy'' ''g4'' = 10 \<and>
   boardValue sample_rules fork_b_game ''Easy'' ''gxh4'' = 20 \<and>
   boardValue sample_rules fork_b_game ''Easy'' ''gxf4'' = 20 \<and>
   fst (getBestMove sample_rules 0 fork_b_game ''Easy'') = Some ''gxh4'' \<and>
   boardValue_ai sample_rules fork_b_game ''Easy'' ''g4'' = Fin 10 \<and>
   boardValue_ai sample_rules fork_b_game ''Easy'' ''gxh4'' = Fin 20 \<and>
   boardValue_ai sample_rules fork_b_game ''Easy'' ''gxf4'' = Fin 20 \<and>
   fst (getBestMove_ai sample_rules 0 fork_b_game ''Easy'') = Some ''gxh4''"
proof -
  have h1: "game_moves sample_rules fork_b_game \<noteq> []" by (simp add: fork_b_moves)
  have h2: "''Easy'' \<noteq> ''Beginner''" by simp
  from first_of_equal_scores [OF h1 h2, of 0] sample_material_in_window
  obtain i where i: "i < length (game_moves sample_rules fork_b_game)"
      "fst (getBestMove sample_rules 0 fork_b_game ''Easy'')
         = Some (game_moves sample_rules fork_b_game ! i)"
      "\<forall>j < i. boardValue sample_rules fork_b_game ''Easy'' (game_moves sample_rules fork_b_game ! j)
                < boardValue sample_rules fork_b_game ''Easy''
                    (game_moves sample_rules fork_b_game ! i)"
      "\<forall>j < length (game_moves sample_rules fork_b_game).
           boardValue sample_rules fork_b_game ''Easy'' (game_moves sample_rules fork_b_game ! j)
             \<le> boardValue sample_rules fork_b_game ''Easy''
                 (game_moves sample_rules fork_b_game ! i)"
    by blast
  have "i = 0 \<or> i = 1 \<or> i = 2" using i(1) unfolding fork_b_moves by auto
  then have "i = 1"
  proof (elim disjE)
    assume "i = 0"
    moreover have "1 < length (game_moves sample_rules fork_b_game)"
      by (simp add: fork_b_moves)
    ultimately have "boardValue sample_rules fork_b_game ''Easy''
        (game_moves sample_rules fork_b_game ! 1)
      \<le> boardValue sample_rules fork_b_game ''Easy'' (game_moves sample_rules fork_b_game ! 0)"
      using i(4) by blast
    then show ?thesis by (simp add: fork_b_moves fork_b_boardValue_easy)
  next
    assume "i = 2"
    with i(3) have "boardValue sample_rules fork_b_game ''Easy''
        (game_moves sample_rules fork_b_game ! 1)
      < boardValue sample_rules fork_b_game ''Easy'' (game_moves sample_rules fork_b_game ! 2)"
      by simp
    then show ?thesis by (simp add: fork_b_moves fork_b_boardValue_easy)
  qed simp
  then show ?thesis
    using i(2) h1 sample_material_in_window fork_b_getBestMove_ai_easy [of 0]
    by (simp add: fork_b_moves fork_b_boardValue_easy fork_b_boardValue_ai_easy)
qed

section \<open>Difficulty values\<close>

text \<open>
  C8, as amended. A difficulty value other than \<^verbatim>\<open>Beginner\<close>, \<^verbatim>\<open>Easy\<close> and \<^verbatim>\<open>Hard\<close>, an
  unrecognized one included, is searched at depth 3: \<^verbatim>\<open>getBestMove\<close> of either file returns
  for it what it returns for \<^verbatim>\<open>Master\<close>, and nothing is rejected.
\<close>

theorem unknown_difficulty_is_master:
  assumes "difficulty \<notin> {''Beginner'', ''Easy'', ''Hard''}"
  shows "getBestMove R u g difficulty = getBestMove R u g ''Master'' \<and>
         getBestMove_ai R u g difficulty = getBestMove_ai R u g ''Master''"
  using assms by (simp add: getBestMove_def getBestMove_ai_def Let_def)

theorem unknown_difficulty_is_master_witness:
  "''Grandmaster'' \<notin> {''Beginner'', ''Easy'', ''Hard''} \<and>
   getBestMove sample_rules 0 fork_w_game ''Grandmaster''
     = getBestMove sample_rules 0 fork_w_game ''Master'' \<and>
   getBestMove_ai sample_rules 0 fork_w_game ''Grandmaster''
     = getBestMove_ai sample_rules 0 fork_w_game ''Master''"
proof -
  have h: "''Grandmaster'' \<notin> {''Beginner'', ''Easy'', ''Hard''}" by simp
  show ?thesis
    using h unknown_difficulty_is_master [OF h, of sample_rules 0 fork_w_game] by simp
qed

text \<open>
  C8 as stated fails: in \<open>Fork_w\<close> the value \<^verbatim>\<open>Grandmaster\<close> is not rejected; either file
  returns \<^verbatim>\<open>g5\<close>, the move it returns for \<^verbatim>\<open>Master\<close>.
\<close>

theorem unknown_difficulty_counterexample:
  "fst (getBestMove sample_rules 0 fork_w_game ''Grandmaster'') \<noteq> None \<and>
   getBestMove sample_rules 0 fork_w_game ''Grandmaster''
     = getBestMove sample_rules 0 fork_w_game ''Master'' \<and>
   fst (getBestMove_ai sample_rules 0 fork_w_game ''Grandmaster'') \<noteq> None \<and>
   getBestMove_ai sample_rules 0 fork_w_game ''Grandmaster''
     = getBestMove_ai sample_rules 0 fork_w_game ''Master'' \<and>
   getBestMove sample_rules 0 fork_w_game ''Grandmaster'' = (Some ''g5'', fork_w_game) \<and>
   getBestMove_ai sample_rules 0 fork_w_game ''Grandmaster'' = (Some ''g5'', fork_w_game)"
proof -
  have g: "''Grandmaster'' \<notin> {''Beginner'', ''Easy''}" by simp
  have m: "''Master'' \<notin> {''Beginner'', ''Easy''}" by simp
  show ?thesis
    by (simp add: fork_w_getBestMove_deep [OF g] fork_w_getBestMove_deep [OF m])
qed

section \<open>Pruning\<close>

text \<open>
  C7. For every position and every depth, the pruned search of \<^verbatim>\<open>lib/engine.ts\<close> started
  with the window \<open>(-10000, 10000)\<close> returns the value of the plain fixed-depth minimax over
  the same move order, and \<^verbatim>\<open>getBestMove\<close> returns the move it would return without
  pruning, on every rules collaborator whose boards keep the material sum inside that
  window, as the boards of chess do. For the variant, started with
  \<open>(-Infinity, Infinity)\<close>, both hold on every rules collaborator.
\<close>

theorem pruning_preserves_search:
  "(material_in_window R \<longrightarrow>
      fst (minimax R g d (- 10000) 10000 mx) = minimax_plain R (current g) d mx \<and>
      fst (getBestMove R u g difficulty) = getBestMove_plain R u (current g) difficulty) \<and>
   fst (evaluateBoard_ai R g d MInf PInf mx) = search_plain_ai R (current g) d mx \<and>
   fst (getBestMove_ai R u g difficulty) = getBestMove_ai_plain R u (current g) difficulty"
  by (simp add: minimax_full_window getBestMove_eq_plain evaluateBoard_ai_full_window
      getBestMove_ai_eq_plain)

theorem pruning_preserves_search_witness:
  "material_in_window sample_rules \<and>
   fst (minimax sample_rules fork_b_game 1 (- 10000) 10000 True) = 20 \<and>
   minimax_plain sample_rules (current fork_b_game) 1 True = 20 \<and>
   fst (getBestMove sample_rules 0 fork_b_game ''Easy'') = Some ''gxh4'' \<and>
   getBestMove_plain sample_rules 0 (current fork_b_game) ''Easy'' = Some ''gxh4''"
proof -
  note t = pruning_preserves_search [of sample_rules fork_b_game 1 True 0 "''Easy''"]
  have p: "minimax_plain sample_rules (current fork_b_game) 1 True = 20"
    by (simp add: evaluateBoard_material sample_simps)
  show ?thesis
    using t sample_material_in_window p fork_b_getBestMove_easy [of 0] by simp
qed

section \<open>The side the engine plays for\<close>

text \<open>
  C1, as amended. On a rules collaborator whose boards keep the material sum inside the
  window \<open>(-10000, 10000)\<close>, as the boards of chess do, and for a position with a legal move
  and a difficulty among Easy, Hard and Master, \<^verbatim>\<open>getBestMove\<close> of \<^verbatim>\<open>lib/engine.ts\<close> returns
  the first root move, in the collaborator's order, of greatest depth-limited minimax
  value (depth 1, 2, 3), and leaves the position as it was. The value follows one
  convention at every ply and at the root: a leaf is the negated White-positive material
  sum, the score from Black's side; the root maximizes; the plies below alternate between
  minimizing and maximizing. At depth 1 it is the value of the move for the side to move
  when Black is to move, and the negation of that value when White is to move: the engine
  maximizes Black's score whoever is to move. At depth 1 the variant, on a collaborator
  whose side to move changes with every root move, returns the first root move of
  greatest material for the side to move.
\<close>

theorem engine_maximizes_black_score:
  assumes "material_in_window R" "game_moves R g \<noteq> []"
    and "difficulty \<in> {''Easy'', ''Hard'', ''Master''}"
  shows
   "(\<exists>i < length (game_moves R g).
       getBestMove R u g difficulty = (Some (game_moves R g ! i), g) \<and>
       (\<forall>j < length (game_moves R g).
          root_value R (current g) difficulty (game_moves R g ! j)
            \<le> root_value R (current g) difficulty (game_moves R g ! i)) \<and>
       (\<forall>j < i. root_value R (current g) difficulty (game_moves R g ! j)
            < root_value R (current g) difficulty (game_moves R g ! i))) \<and>
    search_depth ''Easy'' = 1 \<and> search_depth ''Hard'' = 2 \<and> search_depth ''Master'' = 3 \<and>
    minimax_plain R p 0 mx = - material (boardOf R p) \<and>
    (game_turn R g = Black \<longrightarrow>
       root_value R (current g) ''Easy'' m = easy_value_for_mover R (current g) m) \<and>
    (game_turn R g = White \<longrightarrow>
       root_value R (current g) ''Easy'' m = - easy_value_for_mover R (current g) m) \<and>
    ((\<forall>m \<in> set (game_moves R g).
         sideToMove R (applyMove R (current g) m) \<noteq> sideToMove R (current g)) \<longrightarrow>
     (\<exists>i < length (game_moves R g).
        getBestMove_ai R u g ''Easy'' = (Some (game_moves R g ! i), g) \<and>
        (\<forall>j < length (game_moves R g).
           easy_value_for_mover R (current g) (game_moves R g ! j)
             \<le> easy_value_for_mover R (current g) (game_moves R g ! i)) \<and>
        (\<forall>j < i. easy_value_for_mover R (current g) (game_moves R g ! j)
             < easy_value_for_mover R (current g) (game_moves R g ! i))))"
proof -
  have nb: "difficulty \<noteq> ''Beginner''" using assms(3) by auto
  have d: "search_depth ''Easy'' = 1 \<and> search_depth ''Hard'' = 2 \<and> search_depth ''Master'' = 3"
    by (simp add: search_depth_def)
  have l: "minimax_plain R p 0 mx = - material (boardOf R p)"
    by (simp add: evaluateBoard_material game_board_def)
  have b: "game_turn R g = Black \<longrightarrow>
       root_value R (current g) ''Easy'' m = easy_value_for_mover R (current g) m"
    by (simp add: root_value_def search_depth_def easy_value_for_mover_def game_turn_def Let_def)
  have w: "game_turn R g = White \<longrightarrow>
       root_value R (current g) ''Easy'' m = - easy_value_for_mover R (current g) m"
    by (simp add: root_value_def search_depth_def easy_value_for_mover_def game_turn_def Let_def)
  show ?thesis
    using engine_first_maximum [OF assms(1,2) nb, of u]
      variant_easy_first_maximum [OF assms(2), of u] d l b w
    by blast
qed

theorem engine_maximizes_black_score_witness:
  "material_in_window sample_rules \<and> game_moves sample_rules fork_w_game \<noteq> [] \<and>
   ''Easy'' \<in> {''Easy'', ''Hard'', ''Master''} \<and>
   game_moves sample_rules fork_w_game = [''g5'', ''gxf5'', ''gxh5''] \<and>
   getBestMove sample_rules 0 fork_w_game ''Easy'' = (Some ''g5'', fork_w_game) \<and>
   root_value sample_rules (current fork_w_game) ''Easy'' ''g5'' = - 10 \<and>
   root_value sample_rules (current fork_w_game) ''Easy'' ''gxf5'' = - 20 \<and>
   root_value sample_rules (current fork_w_game) ''Easy'' ''gxh5'' = - 20 \<and>
   getBestMove_ai sample_rules 0 fork_w_game ''Easy'' = (Some ''gxf5'', fork_w_game) \<and>
   easy_value_for_mover sample_rules (current fork_w_game) ''g5'' = 10 \<and>
   easy_value_for_mover sample_rules (current fork_w_game) ''gxf5'' = 20 \<and>
   easy_value_for_mover sample_rules (current fork_w_game) ''gxh5'' = 20"
proof -
  have h2: "game_moves sample_rules fork_w_game \<noteq> []" by (simp add: fork_w_moves)
  have h3: "''Easy'' \<in> {''Easy'', ''Hard'', ''Master''}" by simp
  have c: "current fork_w_game = Fork_w" by (simp add: fork_w_game_def)
  note t = engine_maximizes_black_score [OF sample_material_in_window h2 h3, of 0 Fork_w True
      "''g5''"]
  show ?thesis
    using t sample_material_in_window h2 fork_w_getBestMove_easy [of 0]
      fork_w_getBestMove_ai_easy [of 0]
    by (simp add: fork_w_moves c fork_w_root_values fork_w_easy_values)
qed

text \<open>
  C1 as stated fails: in \<open>Fork_w\<close>, with White to move, \<^verbatim>\<open>getBestMove\<close> of \<^verbatim>\<open>lib/engine.ts\<close>
  at Easy returns \<^verbatim>\<open>g5\<close>, worth \<open>10\<close> to White, although \<^verbatim>\<open>gxf5\<close>, which wins a pawn, is
  legal and worth \<open>20\<close>.
\<close>

theorem plays_for_black_counterexample:
  "game_turn sample_rules fork_w_game = White \<and>
   game_moves sample_rules fork_w_game = [''g5'', ''gxf5'', ''gxh5''] \<and>
   fst (getBestMove sample_rules 0 fork_w_game ''Easy'') = Some ''g5'' \<and>
   easy_value_for_mover sample_rules (current fork_w_game) ''g5'' = 10 \<and>
   easy_value_for_mover sample_rules (current fork_w_game) ''gxf5'' = 20"
proof -
  have c: "current fork_w_game = Fork_w" by (simp add: fork_w_game_def)
  show ?thesis
    by (simp add: c fork_w_getBestMove_easy fork_w_easy_values fork_w_moves)
      (simp add: sample_simps)
qed

end
